theory Spec2Isabelle
  imports Complex_Main
begin

section \<open>Python values, exceptions and the library operations the scripts call\<close>

text \<open>
  The two scripts \<^verbatim>\<open>create_test_samples.py\<close> (a parameterised generator with a
  four-format writer) and \<^verbatim>\<open>create_test_data.py\<close> (a seeded generator writing one
  Parquet file) are embedded below. A raised exception is a value: a function that can
  raise returns \<open>exception + 'a\<close>, and one that also changes the world returns the
  exception (if any) together with the world it leaves behind.
\<close>

datatype exc_kind =
    OverflowError | ValueError | IndexError
  | FileExistsError | FileNotFoundError | NotADirectoryError | IsADirectoryError
  | OtherException

datatype exception = Exc exc_kind string

fun str_exc :: "exception \<Rightarrow> string" where
  "str_exc (Exc k msg) = msg"

subsection \<open>\<^verbatim>\<open>str(int)\<close>\<close>

definition digit_char :: "nat \<Rightarrow> char" where
  "digit_char d = ''0123456789'' ! d"

function str_nat :: "nat \<Rightarrow> string" where
  "str_nat n = (if n < 10 then [digit_char n] else str_nat (n div 10) @ [digit_char (n mod 10)])"
  by pat_completeness auto
termination
  by (relation "measure id") auto

declare str_nat.simps [simp del]

definition str_int :: "int \<Rightarrow> string" where
  "str_int i = (if i < 0 then CHR ''-'' # str_nat (nat (- i)) else str_nat (nat i))"

subsection \<open>Floats\<close>

text \<open>
  A Python float is an IEEE binary64 number. A finite one is kept in canonical form as a
  pair \<open>(m, e)\<close> standing for \<open>m * 2 ^ e\<close>, with \<open>2 ^ 52 \<le> \<bar>m\<bar> < 2 ^ 53\<close> for a
  normal number, \<open>e = - 1074\<close> for a subnormal one and \<open>(0, 0)\<close> for zero. Every
  operation computes the exact rational result and rounds it to the nearest float, ties
  to the even significand, as the hardware multiplication, \<^verbatim>\<open>float(int)\<close>, the
  reading of a literal and \<^verbatim>\<open>round(x, ndigits)\<close> do. Infinities, NaN and the sign of
  zero are left out: no value of this program reaches them, since the row index of a
  row that is built stays below the largest date ordinal.
\<close>

type_synonym pyfloat = "int \<times> int"

function bit_length :: "nat \<Rightarrow> nat" where
  "bit_length n = (if n = 0 then 0 else Suc (bit_length (n div 2)))"
  by pat_completeness auto
termination
  by (relation "measure id") auto

declare bit_length.simps [simp del]

definition rne_div :: "int \<Rightarrow> int \<Rightarrow> int" where
  \<comment> \<open>\<open>n / d\<close> rounded to the nearest integer, a tie to the even one (\<open>0 < d\<close>)\<close>
  "rne_div n d =
     (let q = n div d; r = n mod d
      in if 2 * r < d then q else if d < 2 * r then q + 1
         else if even q then q else q + 1)"

definition round_ratio :: "int \<Rightarrow> int \<Rightarrow> pyfloat" where
  \<comment> \<open>the float nearest to \<open>n / d\<close>, for \<open>0 \<le> n\<close> and \<open>0 < d\<close>\<close>
  "round_ratio n d =
     (if n = 0 then (0, 0)
      else let k = int (bit_length (nat n)) - int (bit_length (nat d));
               l = (if (if 0 \<le> k then d * 2 ^ nat k \<le> n else d \<le> n * 2 ^ nat (- k))
                    then k else k - 1);
               e = max (l - 52) (- 1074);
               m = (if 0 \<le> e then rne_div n (d * 2 ^ nat e)
                    else rne_div (n * 2 ^ nat (- e)) d)
           in if m = 2 ^ 53 then (2 ^ 52, e + 1) else (m, e))"

definition round_signed :: "int \<Rightarrow> int \<Rightarrow> pyfloat" where
  "round_signed n d =
     (if 0 \<le> n then round_ratio n d
      else (case round_ratio (- n) d of (m, e) \<Rightarrow> (- m, e)))"

definition float_literal :: "int \<Rightarrow> int \<Rightarrow> pyfloat" where
  \<comment> \<open>the float a decimal literal denotes: \<^verbatim>\<open>1.1\<close> is \<open>float_literal 11 10\<close>\<close>
  "float_literal n d = round_signed n d"

definition float_of_int :: "int \<Rightarrow> pyfloat" where
  \<comment> \<open>\<^verbatim>\<open>float(i)\<close>, the conversion \<^verbatim>\<open>i * 1.1\<close> applies to its left operand\<close>
  "float_of_int i = round_signed i 1"

definition float_mul :: "pyfloat \<Rightarrow> pyfloat \<Rightarrow> pyfloat" where
  "float_mul a b =
     (case a of (m1, e1) \<Rightarrow> case b of (m2, e2) \<Rightarrow>
        (if 0 \<le> e1 + e2 then round_signed (m1 * m2 * 2 ^ nat (e1 + e2)) 1
         else round_signed (m1 * m2) (2 ^ nat (- (e1 + e2)))))"

definition py_round :: "pyfloat \<Rightarrow> nat \<Rightarrow> pyfloat" where
  \<comment> \<open>\<^verbatim>\<open>round(x, ndigits)\<close>: the exact value of \<open>x\<close> rounded to \<open>ndigits\<close> decimals
      (ties to even), then the float nearest to that decimal\<close>
  "py_round x ndigits =
     (case x of (m, e) \<Rightarrow>
        (let q = (if 0 \<le> e then m * 2 ^ nat e * 10 ^ ndigits
                  else rne_div (m * 10 ^ ndigits) (2 ^ nat (- e)))
         in round_signed q (10 ^ ndigits)))"

subsection \<open>Dates\<close>

text \<open>
  A \<^verbatim>\<open>datetime.date\<close> is its proleptic Gregorian ordinal (\<^verbatim>\<open>date.toordinal()\<close>):
  \<^verbatim>\<open>date.min\<close> is day 1 and \<^verbatim>\<open>date.max\<close> (9999-12-31) is day 3652059. A
  \<^verbatim>\<open>timedelta\<close> is its number of days, at most 999999999 in magnitude. Both
  constructors raise \<^verbatim>\<open>OverflowError\<close> outside their range.
\<close>

type_synonym date = int

definition date_max :: int where
  "date_max = 3652059"

definition timedelta :: "int \<Rightarrow> exception + int" where
  "timedelta days =
     (if days < - 999999999 \<or> 999999999 < days
      then Inl (Exc OverflowError
                 (''days='' @ str_int days @ ''; must have magnitude <= 999999999''))
      else Inr days)"

definition date_sub :: "date \<Rightarrow> int \<Rightarrow> exception + date" where
  \<comment> \<open>\<^verbatim>\<open>date - timedelta\<close>\<close>
  "date_sub d days =
     (if d - days < 1 \<or> date_max < d - days
      then Inl (Exc OverflowError ''date value out of range'')
      else Inr (d - days))"

subsection \<open>Cells, dictionaries, list indexing\<close>

datatype pyval =
    PInt int | PFloat pyfloat | PStr string | PBool bool | PDate date | PTimestamp int | PNaN

type_synonym pydict = "(string \<times> pyval) list"

definition getitem :: "'a list \<Rightarrow> int \<Rightarrow> exception + 'a" where
  \<comment> \<open>\<^verbatim>\<open>xs[i]\<close>, where \<open>- 1\<close> is the last position\<close>
  "getitem xs i =
     (if i < - int (length xs) \<or> int (length xs) \<le> i
      then Inl (Exc IndexError ''list index out of range'')
      else if i < 0 then Inr (xs ! nat (int (length xs) + i))
      else Inr (xs ! nat i))"

subsection \<open>Data frames\<close>

text \<open>
  A \<^verbatim>\<open>pandas.DataFrame\<close> is the length of its index and its columns in order, each a
  name with its cells. Built from a list of dictionaries, its columns are the keys in
  the order of their first appearance (none for an empty list), and a key a row lacks
  gives NaN. Built from a dictionary of arrays, its columns are the keys, and arrays of
  different lengths raise \<^verbatim>\<open>ValueError\<close>.
\<close>

record DataFrame =
  df_index :: nat
  df_cols :: "(string \<times> pyval list) list"

fun ordered_keys :: "string list \<Rightarrow> string list \<Rightarrow> string list" where
  "ordered_keys seen [] = seen"
| "ordered_keys seen (k # ks) =
     (if k \<in> set seen then ordered_keys seen ks else ordered_keys (seen @ [k]) ks)"

definition DataFrame_records :: "pydict list \<Rightarrow> DataFrame" where
  "DataFrame_records data =
     \<lparr>df_index = length data,
      df_cols = map (\<lambda>c. (c, map (\<lambda>r. case map_of r c of None \<Rightarrow> PNaN | Some v \<Rightarrow> v) data))
                    (ordered_keys [] (concat (map (map fst) data)))\<rparr>"

definition DataFrame_dict :: "(string \<times> pyval list) list \<Rightarrow> exception + DataFrame" where
  "DataFrame_dict d =
     (case d of
        [] \<Rightarrow> Inr \<lparr>df_index = 0, df_cols = []\<rparr>
      | (c, xs) # rest \<Rightarrow>
          if list_all (\<lambda>(c', ys). length ys = length xs) rest
          then Inr \<lparr>df_index = length xs, df_cols = d\<rparr>
          else Inl (Exc ValueError ''All arrays must be of the same length''))"

definition columns :: "DataFrame \<Rightarrow> string list" where
  "columns df = map fst (df_cols df)"

definition column :: "DataFrame \<Rightarrow> string \<Rightarrow> pyval list" where
  \<comment> \<open>the cells of a column, the empty list for a name the frame does not have\<close>
  "column df c = (case map_of (df_cols df) c of None \<Rightarrow> [] | Some xs \<Rightarrow> xs)"

section \<open>\<^verbatim>\<open>create_test_samples.py\<close>: the generator\<close>

definition categories :: "string list" where
  "categories = [''A'', ''B'', ''C'']"

definition make_row :: "string \<Rightarrow> date \<Rightarrow> int \<Rightarrow> exception + pydict" where
  \<comment> \<open>the dictionary display of the loop body, its values evaluated in order\<close>
  "make_row prefix today i =
     (let v_id = PInt i;
          v_name = PStr (prefix @ ''_item_'' @ str_int i);
          v_value = PFloat (py_round (float_mul (float_of_int i) (float_literal 11 10)) 2)
      in case timedelta i of Inl e \<Rightarrow> Inl e | Inr td \<Rightarrow>
         case date_sub today td of Inl e \<Rightarrow> Inl e | Inr d \<Rightarrow>
         case getitem categories ((i - 1) mod int (length categories)) of
           Inl e \<Rightarrow> Inl e
         | Inr c \<Rightarrow>
             Inr [(''id'', v_id), (''name'', v_name), (''value'', v_value),
                  (''date'', PDate d), (''flag'', PBool (i mod 2 = 0)),
                  (''category'', PStr c)])"

function generate_loop ::
  "string \<Rightarrow> date \<Rightarrow> int \<Rightarrow> int \<Rightarrow> pydict list \<Rightarrow> exception + pydict list" where
  "generate_loop prefix today rows i data =
     (if rows < i then Inr data
      else case make_row prefix today i of
             Inl e \<Rightarrow> Inl e
           | Inr r \<Rightarrow> generate_loop prefix today rows (i + 1) (data @ [r]))"
  by pat_completeness auto
termination
  by (relation "measure (\<lambda>(prefix, today, rows, i, data). nat (rows + 1 - i))") auto

declare generate_loop.simps [simp del]

definition generate_data :: "date \<Rightarrow> string \<Rightarrow> int \<Rightarrow> exception + DataFrame" where
  \<comment> \<open>\<open>today\<close> is what \<^verbatim>\<open>date.today()\<close> returns when the function is called\<close>
  "generate_data today prefix rows =
     (case generate_loop prefix today rows 1 [] of
        Inl e \<Rightarrow> Inl e
      | Inr data \<Rightarrow> Inr (DataFrame_records data))"

section \<open>Paths, the file system and the world\<close>

subsection \<open>\<^verbatim>\<open>pathlib\<close> paths\<close>

text \<open>
  A path is absolute or relative and has its components in order; \<open>Rel []\<close> is
  \<^verbatim>\<open>Path('.')\<close> and \<open>Abs []\<close> is the root. The right operand of \<^verbatim>\<open>/\<close> is a single
  component here (\<^verbatim>\<open>'sample'\<close>, \<^verbatim>\<open>'test_reviews.parquet'\<close>).
\<close>

datatype path = Abs "string list" | Rel "string list"

fun parts :: "path \<Rightarrow> string list" where
  "parts (Abs ps) = ps"
| "parts (Rel ps) = ps"

fun parent :: "path \<Rightarrow> path" where
  "parent (Abs ps) = Abs (butlast ps)"
| "parent (Rel ps) = Rel (butlast ps)"

fun joinpath :: "path \<Rightarrow> string \<Rightarrow> path" where
  "joinpath (Abs ps) c = Abs (ps @ [c])"
| "joinpath (Rel ps) c = Rel (ps @ [c])"

fun with_name :: "path \<Rightarrow> string \<Rightarrow> path" where
  "with_name (Abs ps) c = Abs (butlast ps @ [c])"
| "with_name (Rel ps) c = Rel (butlast ps @ [c])"

definition name :: "path \<Rightarrow> string" where
  "name p = (if parts p = [] then [] else last (parts p))"

fun join_with :: "string \<Rightarrow> string list \<Rightarrow> string" where
  "join_with sep [] = []"
| "join_with sep [x] = x"
| "join_with sep (x # y # ys) = x @ sep @ join_with sep (y # ys)"

fun path_str :: "path \<Rightarrow> string" where
  "path_str (Abs ps) = ''/'' @ join_with ''/'' ps"
| "path_str (Rel ps) = (if ps = [] then ''.'' else join_with ''/'' ps)"

fun rfind :: "char \<Rightarrow> string \<Rightarrow> nat option" where
  "rfind c [] = None"
| "rfind c (x # xs) =
     (case rfind c xs of
        Some i \<Rightarrow> Some (Suc i)
      | None \<Rightarrow> if x = c then Some 0 else None)"

definition suffix :: "string \<Rightarrow> string" where
  \<comment> \<open>the suffix of a file name: from its last dot, unless that dot is first or last\<close>
  "suffix nm =
     (case rfind CHR ''.'' nm of
        None \<Rightarrow> []
      | Some i \<Rightarrow> if 0 < i \<and> i < length nm - 1 then drop i nm else [])"

definition with_suffix :: "path \<Rightarrow> string \<Rightarrow> exception + path" where
  "with_suffix p sfx =
     (if CHR ''/'' \<in> set sfx \<or> (sfx \<noteq> [] \<and> hd sfx \<noteq> CHR ''.'') \<or> sfx = ''.''
      then Inl (Exc ValueError (''Invalid suffix '' @ sfx))
      else if name p = [] then Inl (Exc ValueError (path_str p @ '' has an empty name''))
      else let old_suffix = suffix (name p);
               nm = (if old_suffix = [] then name p @ sfx
                     else take (length (name p) - length old_suffix) (name p) @ sfx)
           in Inr (with_name p nm))"

subsection \<open>The file system\<close>

text \<open>
  The file system maps the components of an absolute path to what is there; the root
  is a directory. The operating system's \<^verbatim>\<open>mkdir\<close> and the opening of a file for
  writing look at the target and at its parent, which decides their outcome in a file
  system that is a tree. Permissions, links and \<^verbatim>\<open>..\<close> are left out.
\<close>

datatype node = Dir | File string

type_synonym filesystem = "string list \<Rightarrow> node option"

definition node_at :: "filesystem \<Rightarrow> string list \<Rightarrow> node option" where
  "node_at fs ps = (if ps = [] then Some Dir else fs ps)"

fun resolve :: "string list \<Rightarrow> path \<Rightarrow> string list" where
  "resolve cw (Abs ps) = ps"
| "resolve cw (Rel ps) = cw @ ps"

definition os_mkdir :: "string list \<Rightarrow> filesystem \<Rightarrow> exception + filesystem" where
  "os_mkdir ps fs =
     (if node_at fs ps \<noteq> None then Inl (Exc FileExistsError ''[Errno 17] File exists'')
      else case node_at fs (butlast ps) of
             None \<Rightarrow> Inl (Exc FileNotFoundError ''[Errno 2] No such file or directory'')
           | Some (File b) \<Rightarrow> Inl (Exc NotADirectoryError ''[Errno 20] Not a directory'')
           | Some Dir \<Rightarrow> Inr (fs(ps \<mapsto> Dir)))"

definition open_write :: "string list \<Rightarrow> string \<Rightarrow> filesystem \<Rightarrow> exception + filesystem" where
  \<comment> \<open>create or truncate the file and write its content\<close>
  "open_write ps content fs =
     (case node_at fs ps of
        Some Dir \<Rightarrow> Inl (Exc IsADirectoryError ''[Errno 21] Is a directory'')
      | _ \<Rightarrow>
          (case node_at fs (butlast ps) of
             None \<Rightarrow> Inl (Exc FileNotFoundError ''[Errno 2] No such file or directory'')
           | Some (File b) \<Rightarrow> Inl (Exc NotADirectoryError ''[Errno 20] Not a directory'')
           | Some Dir \<Rightarrow> Inr (fs(ps \<mapsto> File content))))"

text \<open>
  \<^verbatim>\<open>Path.mkdir(parents, exist_ok)\<close> is pathlib's own code: try the system call; when
  the parent is missing and \<open>parents\<close> is set, make the parent (with its parents) and
  try again; on any other error return quietly only if \<open>exist_ok\<close> is set and the path
  is a directory.
\<close>

function mkdir ::
  "string list \<Rightarrow> path \<Rightarrow> bool \<Rightarrow> bool \<Rightarrow> filesystem \<Rightarrow> exception + filesystem" where
  "mkdir cw p parents exist_ok fs =
     (case os_mkdir (resolve cw p) fs of
        Inr fs' \<Rightarrow> Inr fs'
      | Inl (Exc k msg) \<Rightarrow>
          if k = FileNotFoundError then
            (if \<not> parents \<or> parent p = p then Inl (Exc k msg)
             else case mkdir cw (parent p) True True fs of
                    Inl e \<Rightarrow> Inl e
                  | Inr fs' \<Rightarrow> mkdir cw p False exist_ok fs')
          else if \<not> exist_ok \<or> node_at fs (resolve cw p) \<noteq> Some Dir then Inl (Exc k msg)
          else Inr fs)"
  by pat_completeness auto
termination
proof (relation "measure (\<lambda>(cw, p, parents, exist_ok, fs).
                   2 * length (parts p) + (if parents then 1 else 0))", goal_cases)
  case 1
  show ?case by simp
next
  case (2 cw p parents exist_ok fs e k msg)
  then have "parts p \<noteq> []" by (cases p) (auto simp: butlast_conv_take)
  moreover have "length (parts (parent p)) = length (parts p) - 1" by (cases p) auto
  ultimately show ?case by (cases "parts p") auto
next
  case (3 cw p parents exist_ok fs e k msg fs')
  then show ?case by auto
qed

declare mkdir.simps [simp del]

subsection \<open>The world\<close>

text \<open>
  What a run reads and changes: the file system, the working directory, the calendar
  day \<^verbatim>\<open>date.today()\<close> returns, the two output streams (a list of lines each), and a
  log of the calls that touch the file system, in the order they are made.
\<close>

datatype fmt = CSV | JSON | Parquet | Excel

datatype event = Mkdir path | Export fmt path

record world =
  files :: filesystem
  cwd :: "string list"
  clock :: date
  stdout :: "string list"
  stderr :: "string list"
  trace :: "event list"

definition print_out :: "string \<Rightarrow> world \<Rightarrow> world" where
  "print_out line w = w\<lparr>stdout := stdout w @ [line]\<rparr>"

definition print_err :: "string \<Rightarrow> world \<Rightarrow> world" where
  "print_err line w = w\<lparr>stderr := stderr w @ [line]\<rparr>"

definition Path_mkdir :: "path \<Rightarrow> bool \<Rightarrow> bool \<Rightarrow> world \<Rightarrow> exception option \<times> world" where
  "Path_mkdir p parents exist_ok w =
     (let w' = w\<lparr>trace := trace w @ [Mkdir p]\<rparr>
      in case mkdir (cwd w) p parents exist_ok (files w) of
           Inl e \<Rightarrow> (Some e, w')
         | Inr fs' \<Rightarrow> (None, w'\<lparr>files := fs'\<rparr>))"

text \<open>
  The serialisers (\<^verbatim>\<open>to_csv\<close>, \<^verbatim>\<open>to_json\<close>, \<^verbatim>\<open>to_parquet\<close>, \<^verbatim>\<open>to_excel\<close>) belong
  to pandas and its engines. An encoder stands for them: for a format and a frame it
  gives the file's content or the exception the library raises (a missing engine, a
  value it cannot encode). An export encodes the frame and writes the file.
\<close>

type_synonym encoder = "fmt \<Rightarrow> DataFrame \<Rightarrow> exception + string"

definition to_file ::
  "encoder \<Rightarrow> fmt \<Rightarrow> DataFrame \<Rightarrow> path \<Rightarrow> world \<Rightarrow> exception option \<times> world" where
  "to_file enc f df p w =
     (let w' = w\<lparr>trace := trace w @ [Export f p]\<rparr>
      in case enc f df of
           Inl e \<Rightarrow> (Some e, w')
         | Inr content \<Rightarrow>
             (case open_write (resolve (cwd w) p) content (files w) of
                Inl e \<Rightarrow> (Some e, w')
              | Inr fs' \<Rightarrow> (None, w'\<lparr>files := fs'\<rparr>)))"

section \<open>\<^verbatim>\<open>create_test_samples.py\<close>: the writer and the script\<close>

text \<open>
  One \<^verbatim>\<open>try\<close> block of \<^verbatim>\<open>write_files\<close>: the export and its line on the standard
  output, or, for an exception the export raises, the line on the error stream. The
  four blocks differ in the serialiser, the label in the two messages and the path.
\<close>

definition try_export ::
  "encoder \<Rightarrow> fmt \<Rightarrow> string \<Rightarrow> DataFrame \<Rightarrow> path \<Rightarrow> world \<Rightarrow> world" where
  "try_export enc f label df p w =
     (case to_file enc f df p w of
        (None, w') \<Rightarrow> print_out (''Written '' @ label @ '': '' @ path_str p) w'
      | (Some e, w') \<Rightarrow>
          print_err (''Error writing '' @ label @ '' to '' @ path_str p @ '': '' @ str_exc e) w')"

definition write_files ::
  "encoder \<Rightarrow> DataFrame \<Rightarrow> path \<Rightarrow> world \<Rightarrow> exception option \<times> world" where
  "write_files enc df path_prefix w =
     (case Path_mkdir (parent path_prefix) True True w of
        (Some e, w0) \<Rightarrow> (Some e, w0)
      | (None, w0) \<Rightarrow>
          (case with_suffix path_prefix ''.csv'' of Inl e \<Rightarrow> (Some e, w0) | Inr csv_path \<Rightarrow>
           case with_suffix path_prefix ''.json'' of Inl e \<Rightarrow> (Some e, w0) | Inr json_path \<Rightarrow>
           case with_suffix path_prefix ''.parquet'' of Inl e \<Rightarrow> (Some e, w0) | Inr parquet_path \<Rightarrow>
           case with_suffix path_prefix ''.xlsx'' of Inl e \<Rightarrow> (Some e, w0) | Inr xlsx_path \<Rightarrow>
             (let w1 = try_export enc CSV ''CSV'' df csv_path w0;
                  w2 = try_export enc JSON ''JSON'' df json_path w1;
                  w3 = try_export enc Parquet ''Parquet'' df parquet_path w2;
                  w4 = try_export enc Excel ''Excel'' df xlsx_path w3
              in (None, w4))))"

text \<open>
  \<open>args\<close> is what \<^verbatim>\<open>parse_args()\<close> returns. The loop of \<^verbatim>\<open>main\<close> runs over the two
  datasets; an exception of \<open>generate_data\<close> or \<open>write_files\<close> is not caught and ends
  the run. The interpreter exits with status 1 on an uncaught exception and 0 otherwise.
\<close>

record args =
  base_dir :: path
  sample_rows :: int
  sample2_rows :: int

fun main_loop ::
  "encoder \<Rightarrow> path \<Rightarrow> (string \<times> int) list \<Rightarrow> world \<Rightarrow> exception option \<times> world" where
  "main_loop enc fixtures_dir [] w = (None, w)"
| "main_loop enc fixtures_dir ((prefix, rows) # rest) w =
     (let path_prefix = joinpath fixtures_dir prefix
      in case generate_data (clock w) prefix rows of
           Inl e \<Rightarrow> (Some e, w)
         | Inr df \<Rightarrow>
             (case write_files enc df path_prefix w of
                (Some e, w') \<Rightarrow> (Some e, w')
              | (None, w') \<Rightarrow> main_loop enc fixtures_dir rest w'))"

definition main :: "encoder \<Rightarrow> args \<Rightarrow> world \<Rightarrow> exception option \<times> world" where
  "main enc a w =
     main_loop enc (base_dir a) [(''sample'', sample_rows a), (''sample2'', sample2_rows a)] w"

definition exit_status :: "exception option \<times> world \<Rightarrow> int" where
  "exit_status r = (case fst r of None \<Rightarrow> 0 | Some e \<Rightarrow> 1)"

section \<open>\<^verbatim>\<open>create_test_data.py\<close>\<close>

text \<open>
  The generator draws from NumPy's global random state. NumPy is not part of the
  repository, so its three operations are parameters, each a function of the state it
  is called in: \<open>np_seed n\<close> for \<^verbatim>\<open>np.random.seed(n)\<close>, \<open>np_randint low high size\<close>
  for \<^verbatim>\<open>np.random.randint(low, high, size)\<close> and \<open>np_choice a size\<close> for
  \<^verbatim>\<open>np.random.choice(a, size)\<close>; the last two give the array and the state after the
  draw. \<open>numpy_contract\<close> is what NumPy's documentation promises of them: seeding
  forgets the earlier state, a draw has the requested size, \<open>randint\<close> stays in the
  half-open interval from \<open>low\<close> to \<open>high\<close>, and \<open>choice\<close> picks elements of \<open>a\<close>.
\<close>

record 's numpy_random =
  np_seed :: "nat \<Rightarrow> 's \<Rightarrow> 's"
  np_randint :: "int \<Rightarrow> int \<Rightarrow> nat \<Rightarrow> 's \<Rightarrow> int list \<times> 's"
  np_choice :: "string list \<Rightarrow> nat \<Rightarrow> 's \<Rightarrow> string list \<times> 's"

definition numpy_contract :: "'s numpy_random \<Rightarrow> bool" where
  "numpy_contract np =
     ((\<forall>n s s'. np_seed np n s = np_seed np n s') \<and>
      (\<forall>low high size s. low < high \<longrightarrow>
         length (fst (np_randint np low high size s)) = size \<and>
         (\<forall>v \<in> set (fst (np_randint np low high size s)). low \<le> v \<and> v < high)) \<and>
      (\<forall>a size s. a \<noteq> [] \<longrightarrow>
         length (fst (np_choice np a size s)) = size \<and>
         set (fst (np_choice np a size s)) \<subseteq> set a))"

definition n_rows :: nat where
  "n_rows = 1000"

definition date_2023_01_01 :: int where
  \<comment> \<open>the ordinal of 2023-01-01, where \<^verbatim>\<open>pd.date_range\<close> starts\<close>
  "date_2023_01_01 = 738521"

definition test_columns :: "'s numpy_random \<Rightarrow> 's \<Rightarrow> (string \<times> pyval list) list \<times> 's" where
  \<comment> \<open>the seeding and the dictionary \<open>data\<close>, its values evaluated in order\<close>
  "test_columns np s =
     (let s0 = np_seed np 42 s;
          (source, s1) = np_choice np [''source_A'', ''source_B'', ''source_C''] n_rows s0;
          product = map (\<lambda>i. PStr (''product_'' @ str_int (int i))) [0..<n_rows];
          (overall_rating, s2) = np_randint np 1 6 n_rows s1;
          (condition, s3) =
             np_choice np [''condition_1'', ''condition_2'', ''condition_3''] n_rows s2;
          comment = map (\<lambda>i. PStr (''comment_'' @ str_int (int i))) [0..<n_rows];
          (sex, s4) = np_choice np [''M'', ''F''] n_rows s3;
          (duration, s5) = np_randint np 1 365 n_rows s4;
          date = take n_rows (map (\<lambda>i. PTimestamp (date_2023_01_01 + int i)) [0..<n_rows]);
          (age, s6) = np_randint np 18 80 n_rows s5;
          username = map (\<lambda>i. PStr (''user_'' @ str_int (int i))) [0..<n_rows];
          (patient_type, s7) = np_choice np [''type_A'', ''type_B''] n_rows s6;
          (INN, s8) = np_choice np [''INN_1'', ''INN_2'', ''INN_3''] n_rows s7;
          (prediction, s9) = np_choice np [''positive'', ''negative'', ''neutral''] n_rows s8;
          (predicted_label, s10) = np_randint np 0 3 n_rows s9
      in ([(''source'', map PStr source),
           (''product'', product),
           (''overall_rating'', map PInt overall_rating),
           (''condition'', map PStr condition),
           (''comment'', comment),
           (''sex'', map PStr sex),
           (''duration'', map PInt duration),
           (''date'', date),
           (''age'', map PInt age),
           (''username'', username),
           (''patient_type'', map PStr patient_type),
           (''INN'', map PStr INN),
           (''prediction'', map PStr prediction),
           (''predicted_label'', map PInt predicted_label)], s10))"

definition repr_list :: "string list \<Rightarrow> string" where
  \<comment> \<open>\<^verbatim>\<open>repr\<close> of a list of strings\<close>
  "repr_list xs = ''['' @ join_with '', '' (map (\<lambda>x. [CHR 0x27] @ x @ [CHR 0x27]) xs) @ '']''"

definition dtype :: "pyval list \<Rightarrow> string" where
  "dtype xs =
     (case xs of
        PInt i # _ \<Rightarrow> ''int64''
      | PFloat x # _ \<Rightarrow> ''float64''
      | PBool b # _ \<Rightarrow> ''bool''
      | PTimestamp t # _ \<Rightarrow> ''datetime64[ns]''
      | _ \<Rightarrow> ''object'')"

definition create_test_data ::
  "'s numpy_random \<Rightarrow> encoder \<Rightarrow> 's \<Rightarrow> world \<Rightarrow> (exception + path) \<times> 's \<times> world" where
  "create_test_data np enc s w =
     (case test_columns np s of (data, s') \<Rightarrow>
      case DataFrame_dict data of
        Inl e \<Rightarrow> (Inl e, s', w)
      | Inr df \<Rightarrow>
          (let output_dir = Rel [''test_data'']
           in case Path_mkdir output_dir False True w of
                (Some e, w1) \<Rightarrow> (Inl e, s', w1)
              | (None, w1) \<Rightarrow>
                  (let output_file = joinpath output_dir ''test_reviews.parquet''
                   in case to_file enc Parquet df output_file w1 of
                        (Some e, w2) \<Rightarrow> (Inl e, s', w2)
                      | (None, w2) \<Rightarrow>
                          (let w3 = print_out (''Created test data: '' @ path_str output_file) w2;
                               w4 = print_out (''Columns: '' @ repr_list (columns df)) w3;
                               w5 = print_out ''Data types:'' w4;
                               w6 = foldl (\<lambda>w (c, xs). print_out (''  '' @ c @ '': '' @ dtype xs) w)
                                          w5 (df_cols df)
                           in (Inr output_file, s', w6)))))"

section \<open>Vocabulary of the statements\<close>

text \<open>
  The definitions of this section are not code of the scripts. They name what the
  lemmas and theorems below speak about: the dictionary a loop iteration builds, the
  stem of a path and the four paths \<^verbatim>\<open>write_files\<close> derives from it, the two lines a
  \<^verbatim>\<open>try\<close> block can print, a sequence of such blocks, file systems that are trees, and
  the concrete worlds, encoders and generators the examples run in.
\<close>

text \<open>
  The keys of the dictionary a loop iteration of \<open>generate_data\<close> builds, and
  that dictionary for index \<open>i\<close> when nothing raises.
\<close>

definition row_keys :: "string list" where
  "row_keys = [''id'', ''name'', ''value'', ''date'', ''flag'', ''category'']"

definition built_row :: "string \<Rightarrow> date \<Rightarrow> int \<Rightarrow> pydict" where
  "built_row prefix today i =
     [(''id'', PInt i), (''name'', PStr (prefix @ ''_item_'' @ str_int i)),
      (''value'', PFloat (py_round (float_mul (float_of_int i) (float_literal 11 10)) 2)),
      (''date'', PDate (today - i)), (''flag'', PBool (i mod 2 = 0)),
      (''category'', PStr (categories ! nat ((i - 1) mod 3)))]"

text \<open>
  \<open>stem\<close> is pathlib's property of that name (the name without its suffix), and
  \<open>target p ext\<close> the path \<open>with_suffix\<close> returns for a path with a name.
\<close>

definition stem :: "path \<Rightarrow> string" where
  "stem p = (if suffix (name p) = [] then name p
             else take (length (name p) - length (suffix (name p))) (name p))"

definition target :: "path \<Rightarrow> string \<Rightarrow> path" where
  "target p ext = with_name p (stem p @ ext)"

text \<open>
  A file system is a tree when whatever exists lies in a directory.
\<close>

definition tree :: "filesystem \<Rightarrow> bool" where
  "tree fsys = (\<forall>q. fsys q \<noteq> None \<longrightarrow> node_at fsys (butlast q) = Some Dir)"

text \<open>
  The two lines of a \<^verbatim>\<open>try\<close> block of \<open>write_files\<close>.
\<close>

definition out_line :: "string \<Rightarrow> path \<Rightarrow> string" where
  "out_line label p = ''Written '' @ label @ '': '' @ path_str p"

definition err_line :: "string \<Rightarrow> path \<Rightarrow> exception \<Rightarrow> string" where
  "err_line label p e = ''Error writing '' @ label @ '' to '' @ path_str p @ '': '' @ str_exc e"

text \<open>
  A sequence of \<^verbatim>\<open>try\<close> blocks run one after the other, and what each of them adds
  to the two streams and to the file system, told from the outcome its export has in
  the world \<open>w\<close> the sequence starts in. \<open>export_steps\<close> are the four blocks of
  \<open>write_files\<close>.
\<close>

fun run_exports :: "encoder \<Rightarrow> DataFrame \<Rightarrow> (fmt \<times> string \<times> path) list \<Rightarrow> world \<Rightarrow> world" where
  "run_exports enc df [] w = w"
| "run_exports enc df ((f, label, p) # steps) w =
     run_exports enc df steps (try_export enc f label df p w)"

definition step_out :: "encoder \<Rightarrow> DataFrame \<Rightarrow> world \<Rightarrow> fmt \<times> string \<times> path \<Rightarrow> string list" where
  "step_out enc df w = (\<lambda>(f, label, p).
     case fst (to_file enc f df p w) of None \<Rightarrow> [out_line label p] | Some e \<Rightarrow> [])"

definition step_err :: "encoder \<Rightarrow> DataFrame \<Rightarrow> world \<Rightarrow> fmt \<times> string \<times> path \<Rightarrow> string list" where
  "step_err enc df w = (\<lambda>(f, label, p).
     case fst (to_file enc f df p w) of None \<Rightarrow> [] | Some e \<Rightarrow> [err_line label p e])"

definition step_file :: "encoder \<Rightarrow> DataFrame \<Rightarrow> world \<Rightarrow> world \<Rightarrow> fmt \<times> string \<times> path \<Rightarrow> bool" where
  "step_file enc df w v = (\<lambda>(f, label, p).
     case fst (to_file enc f df p w) of
       None \<Rightarrow> (\<exists>c. enc f df = Inr c \<and> files v (resolve (cwd w) p) = Some (File c))
     | Some e \<Rightarrow> files v (resolve (cwd w) p) = files w (resolve (cwd w) p))"

definition step_path :: "world \<Rightarrow> fmt \<times> string \<times> path \<Rightarrow> string list" where
  "step_path w = (\<lambda>(f, label, p). resolve (cwd w) p)"

definition export_steps :: "path \<Rightarrow> (fmt \<times> string \<times> path) list" where
  "export_steps pp =
     [(CSV, ''CSV'', target pp ''.csv''), (JSON, ''JSON'', target pp ''.json''),
      (Parquet, ''Parquet'', target pp ''.parquet''), (Excel, ''Excel'', target pp ''.xlsx'')]"

text \<open>
  The keys of the dictionary \<open>data\<close> of \<open>create_test_data\<close>, and a small
  deterministic generator that keeps NumPy's contract, to run the examples with.
\<close>

definition test_column_names :: "string list" where
  "test_column_names =
     [''source'', ''product'', ''overall_rating'', ''condition'', ''comment'', ''sex'',
      ''duration'', ''date'', ''age'', ''username'', ''patient_type'', ''INN'',
      ''prediction'', ''predicted_label'']"

definition np_example :: "nat numpy_random" where
  "np_example =
     \<lparr>np_seed = (\<lambda>n s. n),
      np_randint = (\<lambda>low high size s.
         (map (\<lambda>k. low + int ((s + k) mod nat (high - low))) [0..<size], s + size)),
      np_choice = (\<lambda>a size s.
         (map (\<lambda>k. a ! ((s + k) mod length a)) [0..<size], s + size))\<rparr>"

text \<open>
  The serialiser, the label and the suffix of the four \<^verbatim>\<open>try\<close> blocks, in order.
\<close>

definition formats :: "(fmt \<times> string \<times> string) list" where
  "formats = [(CSV, ''CSV'', ''.csv''), (JSON, ''JSON'', ''.json''),
              (Parquet, ''Parquet'', ''.parquet''), (Excel, ''Excel'', ''.xlsx'')]"

text \<open>
  The world of the examples: a working directory \<^verbatim>\<open>/work\<close> with nothing in it, on
  2026-11-04 (ordinal 739924); an encoder whose Parquet engine is missing, one that
  never fails, and the arguments \<^verbatim>\<open>--base-dir /tmp/fixtures\<close> with the default row
  counts.
\<close>

definition world_example :: world where
  "world_example =
     \<lparr>files = [[''work''] \<mapsto> Dir], cwd = [''work''], clock = 739924,
      stdout = [], stderr = [], trace = []\<rparr>"

definition enc_example :: encoder where
  "enc_example f df =
     (if f = Parquet then Inl (Exc OtherException ''Unable to find a usable engine'')
      else Inr ''data'')"

definition enc_ok :: encoder where
  "enc_ok f df = Inr ''data''"

definition args_example :: args where
  "args_example = \<lparr>base_dir = Abs [''tmp'', ''fixtures''], sample_rows = 5, sample2_rows = 8\<rparr>"

section \<open>Lemmas\<close>

subsection \<open>The loop of the generator and the frame built from its rows\<close>

lemma getitem_categories:
  "getitem categories ((i - 1) mod int (length categories)) = Inr (categories ! nat ((i - 1) mod 3))"
proof -
  define m where "m = (i - 1) mod 3"
  have "0 \<le> m" "m < 3" by (simp_all add: m_def)
  then have "getitem categories m = Inr (categories ! nat m)"
    by (simp add: getitem_def categories_def)
  then show ?thesis by (simp add: m_def categories_def)
qed

lemma make_row_ok:
  assumes "1 \<le> i" "i < today" "today \<le> date_max"
  shows "make_row prefix today i = Inr (built_row prefix today i)"
proof -
  have td: "timedelta i = Inr i"
    using assms by (simp add: timedelta_def date_max_def)
  have ds: "date_sub today i = Inr (today - i)"
    using assms by (simp add: date_sub_def)
  show ?thesis
    by (simp add: make_row_def Let_def td ds getitem_categories built_row_def)
qed

lemma generate_loop_ok:
  assumes "1 \<le> i" "rows < today" "today \<le> date_max"
  shows "generate_loop prefix today rows i data
           = Inr (data @ map (built_row prefix today) [i..rows])"
  using assms
proof (induction prefix today rows i data rule: generate_loop.induct)
  case (1 prefix today rows i data)
  show ?case
  proof (cases "rows < i")
    case True
    then show ?thesis by (simp add: generate_loop.simps)
  next
    case False
    then have mr: "make_row prefix today i = Inr (built_row prefix today i)"
      using "1.prems" by (intro make_row_ok) auto
    have "generate_loop prefix today rows (i + 1) (data @ [built_row prefix today i])
            = Inr ((data @ [built_row prefix today i]) @ map (built_row prefix today) [i + 1..rows])"
      using False mr "1.prems" by (intro "1.IH") auto
    moreover have "[i..rows] = i # [i + 1..rows]"
      using False by (simp add: upto_rec1)
    ultimately show ?thesis
      using False mr by (subst generate_loop.simps) simp
  qed
qed

lemma generate_loop_overflow:
  assumes "1 \<le> i" "i \<le> today" "today \<le> rows" "today \<le> date_max"
  shows "generate_loop prefix today rows i data
           = Inl (Exc OverflowError ''date value out of range'')"
  using assms
proof (induction prefix today rows i data rule: generate_loop.induct)
  case (1 prefix today rows i data)
  have ni: "\<not> rows < i" using "1.prems" by simp
  show ?case
  proof (cases "i = today")
    case True
    have "make_row prefix today today = Inl (Exc OverflowError ''date value out of range'')"
      using "1.prems" by (simp add: make_row_def Let_def timedelta_def date_sub_def date_max_def)
    then show ?thesis
      using True ni by (subst generate_loop.simps) simp
  next
    case False
    then have lt: "i < today" using "1.prems" by simp
    then have mr: "make_row prefix today i = Inr (built_row prefix today i)"
      using "1.prems" by (intro make_row_ok) auto
    have "generate_loop prefix today rows (i + 1) (data @ [built_row prefix today i])
            = Inl (Exc OverflowError ''date value out of range'')"
      using ni mr lt "1.prems" by (intro "1.IH") auto
    then show ?thesis
      using ni mr by (subst generate_loop.simps) simp
  qed
qed

lemma generate_data_overflow:
  assumes "1 \<le> today" "today \<le> rows" "today \<le> date_max"
  shows "generate_data today prefix rows = Inl (Exc OverflowError ''date value out of range'')"
proof -
  have "generate_loop prefix today rows 1 []
          = Inl (Exc OverflowError ''date value out of range'')"
    using assms by (intro generate_loop_overflow) auto
  then show ?thesis by (simp add: generate_data_def)
qed

lemma ordered_keys_known:
  "set ks \<subseteq> set seen \<Longrightarrow> ordered_keys seen ks = seen"
  by (induction ks) auto

lemma ordered_keys_append:
  "ordered_keys seen (ks @ ks') = ordered_keys (ordered_keys seen ks) ks'"
  by (induction ks arbitrary: seen) auto

lemma keys_built_row: "map fst (built_row prefix today i) = row_keys"
  by (simp add: built_row_def row_keys_def)

lemma ordered_keys_same:
  "(\<And>r. r \<in> set rs \<Longrightarrow> map fst r = ks)
     \<Longrightarrow> ordered_keys ks (concat (map (map fst) rs)) = ks"
  by (induction rs) (simp_all add: ordered_keys_append ordered_keys_known)

lemma ordered_keys_first: "ordered_keys [] row_keys = row_keys"
  by (simp add: row_keys_def)

lemma df_cols_rows:
  assumes "js \<noteq> []"
  shows "df_cols (DataFrame_records (map (built_row prefix today) js))
    = map (\<lambda>c. (c, map (\<lambda>r. case map_of r c of None \<Rightarrow> PNaN | Some v \<Rightarrow> v)
                       (map (built_row prefix today) js))) row_keys"
proof -
  obtain j js' where js: "js = j # js'" using assms by (cases js) auto
  have "ordered_keys row_keys (concat (map (map fst) (map (built_row prefix today) js'))) = row_keys"
    by (rule ordered_keys_same) (auto simp: keys_built_row)
  then have "ordered_keys [] (concat (map (map fst) (map (built_row prefix today) js))) = row_keys"
    unfolding js by (simp only: list.map concat.simps ordered_keys_append keys_built_row ordered_keys_first)
  then show ?thesis by (simp only: DataFrame_records_def DataFrame.simps)
qed

lemma column_built:
  assumes "js \<noteq> []"
  shows "column (DataFrame_records (map (built_row prefix today) js)) ''id'' = map PInt js"
    and "column (DataFrame_records (map (built_row prefix today) js)) ''name''
           = map (\<lambda>i. PStr (prefix @ ''_item_'' @ str_int i)) js"
    and "column (DataFrame_records (map (built_row prefix today) js)) ''value''
           = map (\<lambda>i. PFloat (py_round (float_mul (float_of_int i) (float_literal 11 10)) 2)) js"
    and "column (DataFrame_records (map (built_row prefix today) js)) ''date''
           = map (\<lambda>i. PDate (today - i)) js"
    and "column (DataFrame_records (map (built_row prefix today) js)) ''flag''
           = map (\<lambda>i. PBool (i mod 2 = 0)) js"
    and "column (DataFrame_records (map (built_row prefix today) js)) ''category''
           = map (\<lambda>i. PStr (categories ! nat ((i - 1) mod 3))) js"
  by (simp_all add: column_def df_cols_rows[OF assms] row_keys_def built_row_def)

lemma columns_built:
  assumes "js \<noteq> []"
  shows "columns (DataFrame_records (map (built_row prefix today) js)) = row_keys"
  by (simp add: columns_def df_cols_rows[OF assms] row_keys_def)

lemma index_built: "df_index (DataFrame_records (map f js)) = length js"
  by (simp add: DataFrame_records_def)

lemma generate_data_ok:
  assumes "rows < today" "today \<le> date_max"
  shows "generate_data today prefix rows
           = Inr (DataFrame_records (map (built_row prefix today) [1..rows]))"
  using generate_loop_ok[of 1 rows today prefix "[]"] assms
  by (simp add: generate_data_def)

lemma nth_map_upto:
  assumes "1 \<le> i" "i \<le> N"
  shows "map f [1..N] ! nat (i - 1) = f i"
proof -
  have "nat (i - 1) < length [1..N]" using assms by simp
  moreover have "[1..N] ! nat (i - 1) = i" using assms by (simp add: nth_upto)
  ultimately show ?thesis by simp
qed

lemma upto_1_5: "[1..5] = [1, 2, 3, 4, 5::int]"
  by (simp add: upto_rec1)

lemma make_row_Inr:
  assumes "make_row prefix today i = Inr r"
  shows "r = built_row prefix today i"
proof -
  obtain td where td: "timedelta i = Inr td"
    using assms by (cases "timedelta i") (auto simp: make_row_def Let_def)
  then have tdi: "td = i" by (auto simp: timedelta_def split: if_splits)
  obtain d where d: "date_sub today i = Inr d"
    using assms td tdi by (cases "date_sub today i") (auto simp: make_row_def Let_def)
  then have "d = today - i" by (auto simp: date_sub_def split: if_splits)
  then show ?thesis
    using assms td tdi d
    by (simp add: make_row_def Let_def getitem_categories built_row_def)
qed

lemma generate_loop_Inr:
  assumes "generate_loop prefix today rows i data = Inr out"
  shows "out = data @ map (built_row prefix today) [i..rows]"
  using assms
proof (induction prefix today rows i data rule: generate_loop.induct)
  case (1 prefix today rows i data)
  show ?case
  proof (cases "rows < i")
    case True
    then show ?thesis using "1.prems" by (simp add: generate_loop.simps)
  next
    case False
    then obtain r where r: "make_row prefix today i = Inr r"
      and rest: "generate_loop prefix today rows (i + 1) (data @ [r]) = Inr out"
      using "1.prems" by (subst (asm) generate_loop.simps) (auto split: sum.splits)
    have rb: "r = built_row prefix today i" using r by (rule make_row_Inr)
    have "out = (data @ [r]) @ map (built_row prefix today) [i + 1..rows]"
      using False r rest by (intro "1.IH") auto
    moreover have "[i..rows] = i # [i + 1..rows]"
      using False by (simp add: upto_rec1)
    ultimately show ?thesis using rb by simp
  qed
qed

lemma generate_data_Inr:
  assumes "generate_data today prefix rows = Inr df"
  shows "df = DataFrame_records (map (built_row prefix today) [1..rows])"
proof -
  obtain out where o: "generate_loop prefix today rows 1 [] = Inr out"
    and df: "df = DataFrame_records out"
    using assms by (auto simp: generate_data_def split: sum.splits)
  show ?thesis using generate_loop_Inr[OF o] df by simp
qed

lemma column_other_days:
  assumes "c \<noteq> ''date''"
  shows "column (DataFrame_records (map (built_row prefix t1) js)) c
           = column (DataFrame_records (map (built_row prefix t2) js)) c"
proof (cases "js = []")
  case True
  then show ?thesis by simp
next
  case False
  show ?thesis
    using assms
    by (simp add: column_def df_cols_rows[OF False] row_keys_def built_row_def)
qed

lemma generate_data_empty:
  assumes "rows < 1"
  shows "generate_data today prefix rows = Inr \<lparr>df_index = 0, df_cols = []\<rparr>"
  using assms by (simp add: generate_data_def generate_loop.simps DataFrame_records_def)

lemma returned_tables_differ_in_date_only:
  assumes "generate_data today1 p N = Inr df1" "generate_data today2 p N = Inr df2"
  shows "df_index df1 = df_index df2 \<and> columns df1 = columns df2
       \<and> (\<forall>c. c \<noteq> ''date'' \<longrightarrow> column df1 c = column df2 c)
       \<and> (\<forall>i. 1 \<le> i \<and> i \<le> N \<longrightarrow>
            column df1 ''date'' ! nat (i - 1) = PDate (today1 - i) \<and>
            column df2 ''date'' ! nat (i - 1) = PDate (today2 - i))
       \<and> (today1 \<noteq> today2 \<and> 1 \<le> N \<longrightarrow> column df1 ''date'' \<noteq> column df2 ''date'')"
proof -
  have d1: "df1 = DataFrame_records (map (built_row p today1) [1..N])"
    using assms(1) by (rule generate_data_Inr)
  have d2: "df2 = DataFrame_records (map (built_row p today2) [1..N])"
    using assms(2) by (rule generate_data_Inr)
  have dates: "column df1 ''date'' ! nat (i - 1) = PDate (today1 - i) \<and>
               column df2 ''date'' ! nat (i - 1) = PDate (today2 - i)"
    if "1 \<le> i \<and> i \<le> N" for i
  proof -
    have ne: "[1..N] \<noteq> []" using that by (simp add: upto_rec1)
    show ?thesis
      unfolding d1 d2 column_built[OF ne] using that by (simp only: nth_map_upto)
  qed
  have "df_index df1 = df_index df2" by (simp add: d1 d2 index_built)
  moreover have "columns df1 = columns df2"
  proof (cases "[1..N] = []")
    case True
    then show ?thesis by (simp add: d1 d2)
  next
    case False
    then show ?thesis by (simp add: d1 d2 columns_built)
  qed
  moreover have "\<forall>c. c \<noteq> ''date'' \<longrightarrow> column df1 c = column df2 c"
    unfolding d1 d2 using column_other_days by blast
  moreover have "today1 \<noteq> today2 \<and> 1 \<le> N \<longrightarrow> column df1 ''date'' \<noteq> column df2 ''date''"
  proof
    assume a: "today1 \<noteq> today2 \<and> 1 \<le> N"
    then have "column df1 ''date'' ! nat (1 - 1) = PDate (today1 - 1)"
      "column df2 ''date'' ! nat (1 - 1) = PDate (today2 - 1)"
      using dates[of 1] by auto
    then show "column df1 ''date'' \<noteq> column df2 ''date''" using a by auto
  qed
  ultimately show ?thesis using dates by blast
qed

subsection \<open>The floats of the first five rows\<close>

lemmas float_eval =
  float_literal_def float_of_int_def float_mul_def py_round_def round_signed_def
  round_ratio_def rne_div_def bit_length.simps Let_def

lemma lit_1_1: "float_literal 11 10 = (4953959590107546, - 52)"
  by (simp add: float_eval)

lemma value_1: "py_round (float_mul (float_of_int 1) (float_literal 11 10)) 2 = float_literal 11 10"
  by (simp add: float_eval)

lemma value_2: "py_round (float_mul (float_of_int 2) (float_literal 11 10)) 2 = float_literal 22 10"
  by (simp add: float_eval)

lemma value_3: "py_round (float_mul (float_of_int 3) (float_literal 11 10)) 2 = float_literal 33 10"
  by (simp add: float_eval)

lemma value_4: "py_round (float_mul (float_of_int 4) (float_literal 11 10)) 2 = float_literal 44 10"
  by (simp add: float_eval)

lemma value_5: "py_round (float_mul (float_of_int 5) (float_literal 11 10)) 2 = float_literal 55 10"
  by (simp add: float_eval)

lemma product_3_is_not_the_literal: "float_mul (float_of_int 3) (float_literal 11 10) \<noteq> float_literal 33 10"
  by (simp add: float_eval)

lemma str_1_5: "str_int 1 = ''1''" "str_int 2 = ''2''" "str_int 3 = ''3''" "str_int 4 = ''4''" "str_int 5 = ''5''" "str_int 1234 = ''1234''"  "str_int (-17) = ''-17''"
  by (simp_all add: str_int_def str_nat.simps digit_char_def)

subsection \<open>Paths, \<^verbatim>\<open>mkdir\<close> and the exports of \<open>write_files\<close>\<close>

lemma with_suffix_target:
  assumes "name p \<noteq> []" "ext \<in> {''.csv'', ''.json'', ''.parquet'', ''.xlsx''}"
  shows "with_suffix p ext = Inr (target p ext)"
  using assms by (auto simp: with_suffix_def target_def stem_def Let_def)

lemma name_parts: "name p \<noteq> [] \<Longrightarrow> parts p \<noteq> []"
  by (auto simp: name_def)

lemma resolve_with_name:
  "parts p \<noteq> [] \<Longrightarrow> resolve cw (with_name p c) = butlast (resolve cw p) @ [c]"
  by (cases p) (auto simp: butlast_append)

lemma resolve_parent:
  "parts p \<noteq> [] \<Longrightarrow> resolve cw (parent p) = butlast (resolve cw p)"
  by (cases p) (auto simp: butlast_append)

lemma resolve_target:
  "name p \<noteq> [] \<Longrightarrow> resolve cw (target p ext) = resolve cw (parent p) @ [stem p @ ext]"
  by (simp add: target_def resolve_with_name resolve_parent name_parts)

lemma resolve_joinpath: "resolve cw (joinpath p c) = resolve cw p @ [c]"
  by (cases p) auto

lemma parent_joinpath: "parent (joinpath p c) = p"
  by (cases p) auto

lemma name_joinpath: "name (joinpath p c) = c"
  by (cases p) (auto simp: name_def)

lemma mkdir_dir:
  "mkdir cw p parents exist_ok fsys = Inr fsb \<Longrightarrow> node_at fsb (resolve cw p) = Some Dir"
proof (induction cw p parents exist_ok fsys arbitrary: fsb rule: mkdir.induct)
  case (1 cw p parents exist_ok fsys)
  show ?case
  proof (cases "os_mkdir (resolve cw p) fsys")
    case (Inr fsa)
    then have "fsb = fsa" using "1.prems" by (subst (asm) mkdir.simps) simp
    moreover have "node_at fsa (resolve cw p) = Some Dir"
      using Inr by (auto simp: os_mkdir_def node_at_def split: if_splits option.splits node.splits)
    ultimately show ?thesis by simp
  next
    case (Inl e)
    obtain k msg where e: "e = Exc k msg" by (cases e)
    show ?thesis
    proof (cases "k = FileNotFoundError")
      case True
      with Inl e "1.prems" obtain fsa where
        a: "\<not> (\<not> parents \<or> parent p = p)" and
        b: "mkdir cw (parent p) True True fsys = Inr fsa" and
        c: "mkdir cw p False exist_ok fsa = Inr fsb"
        by (subst (asm) mkdir.simps) (auto split: if_splits sum.splits)
      show ?thesis
        using "1.IH"(2)[OF Inl e True a b c] .
    next
      case False
      with Inl e "1.prems" show ?thesis
        by (subst (asm) mkdir.simps) (auto split: if_splits)
    qed
  qed
qed

lemma mkdir_existing:
  assumes "node_at fsys (resolve cw p) = Some Dir"
  shows "mkdir cw p parents True fsys = Inr fsys"
  using assms by (subst mkdir.simps) (simp add: os_mkdir_def)

lemma parts_empty:
  "parts p = [] \<Longrightarrow> parent p = p \<and> (resolve cw p = [] \<or> resolve cw p = cw)"
  by (cases p) auto

lemma parts_nonempty:
  "parts p \<noteq> [] \<Longrightarrow> parent p \<noteq> p \<and> length (parts (parent p)) < length (parts p)
     \<and> resolve cw p \<noteq> []"
proof -
  assume a: "parts p \<noteq> []"
  then have "length (parts p) \<noteq> 0" by simp
  moreover have "length (parts (parent p)) = length (parts p) - 1" by (cases p) auto
  ultimately have l: "length (parts (parent p)) < length (parts p)" by linarith
  then have "parent p \<noteq> p" by auto
  moreover have "resolve cw p \<noteq> []" using a by (cases p) auto
  ultimately show ?thesis using l by simp
qed

lemma tree_ancestors:
  assumes "tree fsys" "node_at fsys cw = Some Dir" "node_at fsys (resolve cw p) = Some Dir"
  shows "node_at fsys (resolve cw ((parent ^^ k) p)) = Some Dir"
proof (induction k)
  case 0
  show ?case using assms by simp
next
  case (Suc k)
  let ?q = "(parent ^^ k) p"
  show ?case
  proof (cases "parts ?q = []")
    case True
    then show ?thesis using Suc parts_empty[of ?q cw] by simp
  next
    case False
    then have r: "resolve cw (parent ?q) = butlast (resolve cw ?q)" "resolve cw ?q \<noteq> []"
      using resolve_parent parts_nonempty by auto
    then have "fsys (resolve cw ?q) \<noteq> None" using Suc by (auto simp: node_at_def)
    then have "node_at fsys (butlast (resolve cw ?q)) = Some Dir"
      using assms(1) by (auto simp: tree_def)
    then show ?thesis using r by simp
  qed
qed

lemma funpow_parent_length:
  "length (parts ((parent ^^ k) p)) \<le> length (parts p)"
proof (induction k)
  case 0 show ?case by simp
next
  case (Suc k)
  have "length (parts (parent ((parent ^^ k) p))) \<le> length (parts ((parent ^^ k) p))"
    by (cases "(parent ^^ k) p") auto
  then show ?case using Suc by simp
qed

lemma resolve_length: "length (resolve cw p) = (case p of Abs ps \<Rightarrow> length ps | Rel ps \<Rightarrow> length cw + length ps)"
  by (cases p) auto

lemma funpow_parent_kind:
  "(case (parent ^^ k) p of Abs _ \<Rightarrow> True | Rel _ \<Rightarrow> False) = (case p of Abs _ \<Rightarrow> True | Rel _ \<Rightarrow> False)"
proof (induction k)
  case 0 show ?case by simp
next
  case (Suc k)
  then show ?case by (cases "(parent ^^ k) p") auto
qed

lemma ancestor_of_parent_neq:
  assumes "parts p \<noteq> []"
  shows "resolve cw ((parent ^^ k) (parent p)) \<noteq> resolve cw p"
proof -
  let ?a = "(parent ^^ k) (parent p)"
  have l: "length (parts ?a) < length (parts p)"
    using funpow_parent_length[of k "parent p"] parts_nonempty[OF assms, of cw] by linarith
  have kd: "(case ?a of Abs _ \<Rightarrow> True | Rel _ \<Rightarrow> False) = (case p of Abs _ \<Rightarrow> True | Rel _ \<Rightarrow> False)"
    using funpow_parent_kind[of k "parent p"] by (cases p) auto
  have "length (resolve cw ?a) < length (resolve cw p)"
    using l kd by (cases ?a; cases p) auto
  then show ?thesis by auto
qed

lemma node_at_upd:
  "d \<noteq> [] \<Longrightarrow> node_at (fsys(d \<mapsto> n)) q = (if q = d then Some n else node_at fsys q)"
  by (auto simp: node_at_def)

lemma funpow_parent_Suc: "(parent ^^ Suc k) p = (parent ^^ k) (parent p)"
  by (simp add: funpow_swap1)

lemma mkdir_parents:
  assumes "tree fsys" "node_at fsys cw = Some Dir"
    and "\<forall>k b. node_at fsys (resolve cw ((parent ^^ k) p)) \<noteq> Some (File b)"
  shows "\<exists>fsb. mkdir cw p True True fsys = Inr fsb \<and> tree fsb \<and> node_at fsb cw = Some Dir
           \<and> (\<forall>k. node_at fsb (resolve cw ((parent ^^ k) p)) = Some Dir)
           \<and> (\<forall>q. node_at fsys q \<noteq> None \<longrightarrow> node_at fsb q = node_at fsys q)
           \<and> (\<forall>q. (\<forall>k. q \<noteq> resolve cw ((parent ^^ k) p)) \<longrightarrow> fsb q = fsys q)"
  using assms(3)
proof (induction "length (parts p)" arbitrary: p rule: less_induct)
  case less
  let ?d = "resolve cw p"
  have nofile: "\<And>k b. node_at fsys (resolve cw ((parent ^^ k) p)) \<noteq> Some (File b)"
    using less.prems by blast
  show ?case
  proof (cases "node_at fsys ?d")
    case (Some n)
    then have dir: "node_at fsys ?d = Some Dir"
      using nofile[of 0] by (cases n) auto
    have "mkdir cw p True True fsys = Inr fsys"
      using dir by (rule mkdir_existing)
    moreover have "\<forall>k. node_at fsys (resolve cw ((parent ^^ k) p)) = Some Dir"
      using tree_ancestors[OF assms(1) assms(2) dir] by blast
    ultimately show ?thesis using assms(1) assms(2) by auto
  next
    case None
    have ne: "parts p \<noteq> []"
    proof
      assume "parts p = []"
      then have "?d = [] \<or> ?d = cw" using parts_empty by blast
      then show False
      proof
        assume "?d = []" then show False using None by (simp add: node_at_def)
      next
        assume "?d = cw" then show False using None assms(2) by simp
      qed
    qed
    have pn: "parent p \<noteq> p" "length (parts (parent p)) < length (parts p)" "?d \<noteq> []"
      using parts_nonempty[OF ne, of cw] by auto
    have rp: "resolve cw (parent p) = butlast ?d"
      using ne by (rule resolve_parent)
    have "\<forall>k b. node_at fsys (resolve cw ((parent ^^ k) (parent p))) \<noteq> Some (File b)"
      using nofile by (metis funpow_parent_Suc)
    from less.hyps[OF pn(2) this] obtain fsa where
      m1: "mkdir cw (parent p) True True fsys = Inr fsa" and
      t1: "tree fsa" and c1: "node_at fsa cw = Some Dir" and
      a1: "\<And>k. node_at fsa (resolve cw ((parent ^^ k) (parent p))) = Some Dir" and
      k1: "\<And>q. node_at fsys q \<noteq> None \<Longrightarrow> node_at fsa q = node_at fsys q" and
      f1: "\<And>q. (\<forall>k. q \<noteq> resolve cw ((parent ^^ k) (parent p))) \<Longrightarrow> fsa q = fsys q"
      by blast
    have d1: "fsa ?d = fsys ?d"
      using ancestor_of_parent_neq[OF ne, of cw] by (intro f1) metis
    have dn: "fsys ?d = None" "fsa ?d = None"
      using None pn(3) d1 by (auto simp: node_at_def)
    have pd1: "node_at fsa (butlast ?d) = Some Dir"
      using a1[of 0] rp by simp
    have second: "mkdir cw p False True fsa = Inr (fsa(?d \<mapsto> Dir))"
      using dn pd1 pn(3) by (subst mkdir.simps) (simp add: os_mkdir_def node_at_def)
    have run: "mkdir cw p True True fsys = Inr (fsa(?d \<mapsto> Dir))"
    proof (cases "node_at fsys (butlast ?d)")
      case None
      then show ?thesis
        using dn pn m1 second
        by (subst mkdir.simps) (simp add: os_mkdir_def node_at_def)
    next
      case (Some n)
      then have pdir: "node_at fsys (butlast ?d) = Some Dir"
        using nofile[of 1] rp by (cases n) auto
      then have "mkdir cw (parent p) True True fsys = Inr fsys"
        using rp by (intro mkdir_existing) simp
      then have "fsa = fsys" using m1 by simp
      then show ?thesis
        using dn pn pdir
        by (subst mkdir.simps) (simp add: os_mkdir_def node_at_def)
    qed
    let ?fsb = "fsa(?d \<mapsto> Dir)"
    have nb: "\<And>q. node_at ?fsb q = (if q = ?d then Some Dir else node_at fsa q)"
      using pn(3) by (simp add: node_at_upd)
    have "tree ?fsb"
      unfolding tree_def
    proof (intro allI impI)
      fix q assume q: "?fsb q \<noteq> None"
      show "node_at ?fsb (butlast q) = Some Dir"
      proof (cases "q = ?d")
        case True
        then show ?thesis using pd1 nb by simp
      next
        case False
        then have "fsa q \<noteq> None" using q by simp
        then have "node_at fsa (butlast q) = Some Dir" using t1 by (simp add: tree_def)
        then show ?thesis using nb by simp
      qed
    qed
    moreover have "node_at ?fsb cw = Some Dir"
      using c1 nb by simp
    moreover have "\<forall>k. node_at ?fsb (resolve cw ((parent ^^ k) p)) = Some Dir"
    proof
      fix k
      show "node_at ?fsb (resolve cw ((parent ^^ k) p)) = Some Dir"
      proof (cases k)
        case 0
        then show ?thesis using nb by simp
      next
        case (Suc j)
        then have "node_at fsa (resolve cw ((parent ^^ k) p)) = Some Dir"
          using a1[of j] by (simp only: funpow_parent_Suc)
        then show ?thesis using nb by simp
      qed
    qed
    moreover have "\<forall>q. node_at fsys q \<noteq> None \<longrightarrow> node_at ?fsb q = node_at fsys q"
    proof (intro allI impI)
      fix q assume q: "node_at fsys q \<noteq> None"
      then have "q \<noteq> ?d" using None by auto
      then show "node_at ?fsb q = node_at fsys q" using k1[OF q] nb by simp
    qed
    moreover have "\<forall>q. (\<forall>k. q \<noteq> resolve cw ((parent ^^ k) p)) \<longrightarrow> ?fsb q = fsys q"
    proof (intro allI impI)
      fix q assume q: "\<forall>k. q \<noteq> resolve cw ((parent ^^ k) p)"
      then have "q \<noteq> ?d" by (metis funpow_0)
      moreover have "\<forall>k. q \<noteq> resolve cw ((parent ^^ k) (parent p))"
        using q by (metis funpow_parent_Suc)
      ultimately show "?fsb q = fsys q" using f1 by simp
    qed
    ultimately show ?thesis using run by blast
  qed
qed

lemma open_write_result:
  "open_write ps c fsys = Inr fsb \<Longrightarrow> fsb = fsys(ps \<mapsto> File c)"
  by (auto simp: open_write_def split: option.splits node.splits)

lemma to_file_fst_cong:
  assumes "cwd v = cwd w"
    and "node_at (files v) (resolve (cwd w) p) = node_at (files w) (resolve (cwd w) p)"
    and "node_at (files v) (butlast (resolve (cwd w) p))
           = node_at (files w) (butlast (resolve (cwd w) p))"
  shows "fst (to_file enc f df p v) = fst (to_file enc f df p w)"
  using assms
  by (simp add: to_file_def open_write_def Let_def split: sum.splits option.splits node.splits)

lemma to_file_None:
  assumes "fst (to_file enc f df p w) = None"
  shows "\<exists>c. enc f df = Inr c
           \<and> snd (to_file enc f df p w)
               = w\<lparr>trace := trace w @ [Export f p],
                   files := (files w)(resolve (cwd w) p \<mapsto> File c)\<rparr>"
  using assms
  by (auto simp: to_file_def Let_def split: sum.splits dest: open_write_result)

lemma to_file_Some:
  assumes "fst (to_file enc f df p w) = Some e"
  shows "snd (to_file enc f df p w) = w\<lparr>trace := trace w @ [Export f p]\<rparr>"
  using assms
  by (auto simp: to_file_def Let_def split: sum.splits)

lemma to_file_succeeds:
  assumes "enc f df = Inr c" "node_at (files w) (resolve (cwd w) p) \<noteq> Some Dir"
    and "node_at (files w) (butlast (resolve (cwd w) p)) = Some Dir"
  shows "fst (to_file enc f df p w) = None"
  using assms
  by (auto simp: to_file_def open_write_def Let_def split: sum.splits option.splits node.splits)

lemma try_export_None:
  assumes "fst (to_file enc f df p w) = None"
  shows "\<exists>c. enc f df = Inr c
           \<and> try_export enc f label df p w
               = w\<lparr>trace := trace w @ [Export f p],
                   files := (files w)(resolve (cwd w) p \<mapsto> File c),
                   stdout := stdout w @ [out_line label p]\<rparr>"
proof -
  from to_file_None[OF assms] obtain c where c: "enc f df = Inr c"
    and s: "snd (to_file enc f df p w)
              = w\<lparr>trace := trace w @ [Export f p],
                  files := (files w)(resolve (cwd w) p \<mapsto> File c)\<rparr>" by blast
  have "to_file enc f df p w
          = (None, w\<lparr>trace := trace w @ [Export f p],
                      files := (files w)(resolve (cwd w) p \<mapsto> File c)\<rparr>)"
    using assms s by (metis prod.collapse)
  then show ?thesis
    using c by (simp add: try_export_def print_out_def out_line_def)
qed

lemma try_export_Some:
  assumes "fst (to_file enc f df p w) = Some e"
  shows "try_export enc f label df p w
           = w\<lparr>trace := trace w @ [Export f p],
               stderr := stderr w @ [err_line label p e]\<rparr>"
proof -
  have "to_file enc f df p w = (Some e, w\<lparr>trace := trace w @ [Export f p]\<rparr>)"
    using assms to_file_Some[OF assms] by (metis prod.collapse)
  then show ?thesis
    by (simp add: try_export_def print_err_def err_line_def)
qed

lemma try_export_frame:
  shows "cwd (try_export enc f label df p w) = cwd w"
    and "clock (try_export enc f label df p w) = clock w"
    and "trace (try_export enc f label df p w) = trace w @ [Export f p]"
    and "set (stdout w) \<subseteq> set (stdout (try_export enc f label df p w))"
    and "set (stderr w) \<subseteq> set (stderr (try_export enc f label df p w))"
    and "q \<noteq> resolve (cwd w) p \<Longrightarrow> files (try_export enc f label df p w) q = files w q"
proof -
  consider (ok) "fst (to_file enc f df p w) = None"
    | (err) e where "fst (to_file enc f df p w) = Some e"
    by (cases "fst (to_file enc f df p w)") auto
  then have "cwd (try_export enc f label df p w) = cwd w
     \<and> clock (try_export enc f label df p w) = clock w
     \<and> trace (try_export enc f label df p w) = trace w @ [Export f p]
     \<and> set (stdout w) \<subseteq> set (stdout (try_export enc f label df p w))
     \<and> set (stderr w) \<subseteq> set (stderr (try_export enc f label df p w))
     \<and> (q \<noteq> resolve (cwd w) p \<longrightarrow> files (try_export enc f label df p w) q = files w q)"
  proof cases
    case ok
    from try_export_None[OF ok, of label] show ?thesis by auto
  next
    case err
    from try_export_Some[OF err, of label] show ?thesis by auto
  qed
  then show "cwd (try_export enc f label df p w) = cwd w"
    and "clock (try_export enc f label df p w) = clock w"
    and "trace (try_export enc f label df p w) = trace w @ [Export f p]"
    and "set (stdout w) \<subseteq> set (stdout (try_export enc f label df p w))"
    and "set (stderr w) \<subseteq> set (stderr (try_export enc f label df p w))"
    and "q \<noteq> resolve (cwd w) p \<Longrightarrow> files (try_export enc f label df p w) q = files w q"
    by blast+
qed

lemma try_export_node_other:
  assumes "q \<noteq> resolve (cwd w) p"
  shows "node_at (files (try_export enc f label df p w)) q = node_at (files w) q"
  using try_export_frame(6)[OF assms] by (simp add: node_at_def)

lemma try_export_dirs:
  assumes "node_at (files w) q = Some Dir"
  shows "node_at (files (try_export enc f label df p w)) q = Some Dir"
proof (cases "fst (to_file enc f df p w)")
  case None
  from try_export_None[OF None, of label] obtain c where
    "try_export enc f label df p w
       = w\<lparr>trace := trace w @ [Export f p],
           files := (files w)(resolve (cwd w) p \<mapsto> File c),
           stdout := stdout w @ [out_line label p]\<rparr>" by blast
  moreover have "node_at (files w) (resolve (cwd w) p) \<noteq> Some Dir"
    using None
    by (auto simp: to_file_def open_write_def Let_def split: sum.splits option.splits node.splits)
  ultimately show ?thesis using assms by (auto simp: node_at_def)
next
  case (Some e)
  from try_export_Some[OF Some, of label] show ?thesis using assms by simp
qed

lemma run_exports_effect:
  assumes "node_at (files w) d = Some Dir"
    and "\<forall>s \<in> set steps. butlast (step_path w s) = d \<and> step_path w s \<noteq> d"
    and "distinct (map (step_path w) steps)"
  shows "cwd (run_exports enc df steps w) = cwd w
       \<and> clock (run_exports enc df steps w) = clock w
       \<and> trace (run_exports enc df steps w) = trace w @ map (\<lambda>(f, label, p). Export f p) steps
       \<and> stdout (run_exports enc df steps w) = stdout w @ concat (map (step_out enc df w) steps)
       \<and> stderr (run_exports enc df steps w) = stderr w @ concat (map (step_err enc df w) steps)
       \<and> (\<forall>q. q \<notin> set (map (step_path w) steps) \<longrightarrow> files (run_exports enc df steps w) q = files w q)
       \<and> (\<forall>s \<in> set steps. step_file enc df w (run_exports enc df steps w) s)"
  using assms
proof (induction steps arbitrary: w)
  case Nil
  show ?case by simp
next
  case (Cons s steps)
  obtain f label p where s: "s = (f, label, p)" by (cases s) auto
  let ?r = "resolve (cwd w) p"
  let ?w1 = "try_export enc f label df p w"
  let ?v = "run_exports enc df steps ?w1"
  have v: "run_exports enc df (s # steps) w = ?v" by (simp add: s)
  have cw: "cwd ?w1 = cwd w" by (rule try_export_frame)
  have sp: "step_path ?w1 = step_path w" by (simp add: step_path_def cw)
  have rd: "butlast ?r = d" "?r \<noteq> d" using Cons.prems(2) by (auto simp: s step_path_def)
  have rn: "?r \<notin> set (map (step_path w) steps)" using Cons.prems(3) by (simp add: s step_path_def)
  have d1: "node_at (files ?w1) d = Some Dir"
    using Cons.prems(1) by (rule try_export_dirs)
  have p2: "\<forall>s \<in> set steps. butlast (step_path ?w1 s) = d \<and> step_path ?w1 s \<noteq> d"
    using Cons.prems(2) sp by simp
  have p3: "distinct (map (step_path ?w1) steps)" using Cons.prems(3) sp by simp
  note IH = Cons.IH[OF d1 p2 p3]
  have same: "fst (to_file enc f' df p' ?w1) = fst (to_file enc f' df p' w)"
    if "(f', l', p') \<in> set steps" for f' l' p'
  proof (rule to_file_fst_cong)
    show "cwd ?w1 = cwd w" by (rule cw)
    have "resolve (cwd w) p' \<in> set (map (step_path w) steps)"
      using that by (force simp: step_path_def)
    then have ne: "resolve (cwd w) p' \<noteq> ?r" using rn by auto
    then show "node_at (files ?w1) (resolve (cwd w) p') = node_at (files w) (resolve (cwd w) p')"
      by (rule try_export_node_other)
    have "butlast (resolve (cwd w) p') = d"
      using Cons.prems(2) that by (force simp: step_path_def)
    then show "node_at (files ?w1) (butlast (resolve (cwd w) p'))
                 = node_at (files w) (butlast (resolve (cwd w) p'))"
      using d1 Cons.prems(1) by simp
  qed
  have so: "map (step_out enc df ?w1) steps = map (step_out enc df w) steps"
    by (rule map_cong) (auto simp: step_out_def same)
  have se: "map (step_err enc df ?w1) steps = map (step_err enc df w) steps"
    by (rule map_cong) (auto simp: step_err_def same)
  have head: "stdout ?w1 = stdout w @ step_out enc df w s
            \<and> stderr ?w1 = stderr w @ step_err enc df w s
            \<and> step_file enc df w ?w1 s"
  proof (cases "fst (to_file enc f df p w)")
    case None
    from try_export_None[OF None, of label] show ?thesis
      using None by (auto simp: step_out_def step_err_def step_file_def s)
  next
    case (Some e)
    from try_export_Some[OF Some, of label] show ?thesis
      using Some by (auto simp: step_out_def step_err_def step_file_def s)
  qed
  have keep: "files ?v ?r = files ?w1 ?r"
    using IH rn sp by simp
  have "cwd ?v = cwd w" using IH cw by simp
  moreover have "clock ?v = clock w" using IH try_export_frame(2)[of enc f label df p w] by simp
  moreover have "trace ?v = trace w @ map (\<lambda>(f, label, p). Export f p) (s # steps)"
    using IH try_export_frame(3)[of enc f label df p w] by (simp add: s)
  moreover have "stdout ?v = stdout w @ concat (map (step_out enc df w) (s # steps))"
    using IH head so by simp
  moreover have "stderr ?v = stderr w @ concat (map (step_err enc df w) (s # steps))"
    using IH head se by simp
  moreover have "\<forall>q. q \<notin> set (map (step_path w) (s # steps)) \<longrightarrow> files ?v q = files w q"
  proof (intro allI impI)
    fix q assume q: "q \<notin> set (map (step_path w) (s # steps))"
    then have "q \<noteq> ?r" "q \<notin> set (map (step_path ?w1) steps)"
      unfolding sp by (auto simp: s step_path_def)
    then show "files ?v q = files w q"
      using IH try_export_frame(6)[of q w p enc f label df] by simp
  qed
  moreover have "\<forall>t \<in> set (s # steps). step_file enc df w ?v t"
  proof
    fix t assume t: "t \<in> set (s # steps)"
    show "step_file enc df w ?v t"
    proof (cases "t = s")
      case True
      then show ?thesis
        using head keep by (auto simp: step_file_def s split: option.splits)
    next
      case False
      then have ts: "t \<in> set steps" using t by simp
      obtain f' l' p' where t': "t = (f', l', p')" by (cases t) auto
      have sm: "fst (to_file enc f' df p' ?w1) = fst (to_file enc f' df p' w)"
        using same ts unfolding t' by blast
      have "step_file enc df ?w1 ?v t" using IH ts by blast
      then have a: "case fst (to_file enc f' df p' w) of
                 None \<Rightarrow> (\<exists>c. enc f' df = Inr c \<and> files ?v (resolve (cwd w) p') = Some (File c))
               | Some e \<Rightarrow> files ?v (resolve (cwd w) p') = files ?w1 (resolve (cwd w) p')"
        unfolding step_file_def t' prod.case sm cw .
      have "resolve (cwd w) p' \<noteq> ?r"
        using rn ts by (force simp: t' step_path_def)
      then have "files ?w1 (resolve (cwd w) p') = files w (resolve (cwd w) p')"
        by (rule try_export_frame(6))
      then show ?thesis
        using a by (simp add: step_file_def t' split: option.splits)
    qed
  qed
  ultimately show ?case unfolding v by blast
qed

lemma Path_mkdir_None:
  assumes "Path_mkdir p parents exist_ok w = (None, w0)"
  shows "\<exists>fsb. mkdir (cwd w) p parents exist_ok (files w) = Inr fsb
           \<and> w0 = w\<lparr>trace := trace w @ [Mkdir p], files := fsb\<rparr>"
  using assms by (auto simp: Path_mkdir_def Let_def split: sum.splits)

lemma Path_mkdir_Some:
  assumes "Path_mkdir p parents exist_ok w = (Some e, w0)"
  shows "mkdir (cwd w) p parents exist_ok (files w) = Inl e
           \<and> w0 = w\<lparr>trace := trace w @ [Mkdir p]\<rparr>"
  using assms by (auto simp: Path_mkdir_def Let_def split: sum.splits)

lemma Path_mkdir_dir:
  assumes "Path_mkdir p parents exist_ok w = (None, w0)"
  shows "node_at (files w0) (resolve (cwd w) p) = Some Dir" "cwd w0 = cwd w" "clock w0 = clock w"
    "trace w0 = trace w @ [Mkdir p]" "stdout w0 = stdout w" "stderr w0 = stderr w"
  using Path_mkdir_None[OF assms] mkdir_dir by auto

lemma write_files_run:
  assumes "Path_mkdir (parent pp) True True w = (None, w0)" "name pp \<noteq> []"
  shows "write_files enc df pp w = (None, run_exports enc df (export_steps pp) w0)"
  using assms by (simp add: write_files_def with_suffix_target Let_def export_steps_def)

lemma write_files_raises:
  assumes "Path_mkdir (parent pp) True True w = (Some e, w0)"
  shows "write_files enc df pp w = (Some e, w0)"
  using assms by (simp add: write_files_def)

lemma export_steps_paths:
  assumes "name pp \<noteq> []" "cwd w0 = cw"
  shows "map (step_path w0) (export_steps pp)
           = map (\<lambda>ext. resolve cw (parent pp) @ [stem pp @ ext])
                 [''.csv'', ''.json'', ''.parquet'', ''.xlsx'']"
  using assms by (simp add: export_steps_def step_path_def resolve_target)

lemma write_files_effect:
  assumes mk: "Path_mkdir (parent pp) True True w = (None, w0)" and nm: "name pp \<noteq> []"
  shows "\<exists>v. write_files enc df pp w = (None, v)
       \<and> cwd v = cwd w \<and> clock v = clock w
       \<and> trace v = trace w @ Mkdir (parent pp) # map (\<lambda>(f, label, p). Export f p) (export_steps pp)
       \<and> stdout v = stdout w @ concat (map (step_out enc df w0) (export_steps pp))
       \<and> stderr v = stderr w @ concat (map (step_err enc df w0) (export_steps pp))
       \<and> (\<forall>q. q \<notin> set (map (step_path w0) (export_steps pp)) \<longrightarrow> files v q = files w0 q)
       \<and> (\<forall>s \<in> set (export_steps pp). step_file enc df w0 v s)"
proof -
  let ?d = "resolve (cwd w) (parent pp)"
  note m = Path_mkdir_dir[OF mk]
  have paths: "map (step_path w0) (export_steps pp)
                 = map (\<lambda>ext. ?d @ [stem pp @ ext]) [''.csv'', ''.json'', ''.parquet'', ''.xlsx'']"
    using nm m(2) by (rule export_steps_paths)
  have a1: "node_at (files w0) ?d = Some Dir" by (rule m(1))
  have a2: "\<forall>s \<in> set (export_steps pp). butlast (step_path w0 s) = ?d \<and> step_path w0 s \<noteq> ?d"
  proof
    fix s assume "s \<in> set (export_steps pp)"
    then have "step_path w0 s \<in> set (map (step_path w0) (export_steps pp))" by simp
    then show "butlast (step_path w0 s) = ?d \<and> step_path w0 s \<noteq> ?d"
      unfolding paths by auto
  qed
  have a3: "distinct (map (step_path w0) (export_steps pp))"
    unfolding paths by simp
  from run_exports_effect[OF a1 a2 a3, of enc df] m
  show ?thesis
    unfolding write_files_run[OF mk nm] by simp
qed

subsection \<open>The table of \<open>create_test_data\<close>\<close>

lemma np_example_randint:
  "np_randint np_example low high sz s
     = (map (\<lambda>k. low + int ((s + k) mod nat (high - low))) [0..<sz], s + sz)"
  by (simp add: np_example_def)

lemma np_example_choice:
  "np_choice np_example a sz s = (map (\<lambda>k. a ! ((s + k) mod length a)) [0..<sz], s + sz)"
  by (simp add: np_example_def)

lemma np_example_seed: "np_seed np_example n s = n"
  by (simp add: np_example_def)

lemma np_example_contract: "numpy_contract np_example"
  unfolding numpy_contract_def np_example_randint np_example_choice np_example_seed
proof (intro conjI allI impI ballI)
  fix low high v :: int and sz s :: nat
  assume lh: "low < high"
    and "v \<in> set (fst (map (\<lambda>k. low + int ((s + k) mod nat (high - low))) [0..<sz], s + sz))"
  then obtain k where v: "v = low + int ((s + k) mod nat (high - low))" by auto
  have "(s + k) mod nat (high - low) < nat (high - low)" using lh by simp
  then show "low \<le> v" "v < high" using v lh by linarith+
qed (auto simp: subset_iff)

lemma contract_randint:
  assumes "numpy_contract np" "low < high"
  shows "length (fst (np_randint np low high sz s)) = sz"
    and "v \<in> set (fst (np_randint np low high sz s)) \<Longrightarrow> low \<le> v \<and> v < high"
  using assms unfolding numpy_contract_def by blast+

lemma contract_choice:
  assumes "numpy_contract np" "a \<noteq> []"
  shows "length (fst (np_choice np a sz s)) = sz"
  using assms unfolding numpy_contract_def by blast

lemma contract_seed:
  assumes "numpy_contract np"
  shows "np_seed np n s = np_seed np n s'"
  using assms unfolding numpy_contract_def by blast

lemma test_columns_names: "map fst (fst (test_columns np s)) = test_column_names"
  by (simp add: test_columns_def Let_def case_prod_beta test_column_names_def)

lemma test_columns_lengths:
  assumes "numpy_contract np"
  shows "list_all (\<lambda>(c, xs). length xs = n_rows) (fst (test_columns np s))"
  using assms
  by (simp add: test_columns_def Let_def case_prod_beta contract_randint(1) contract_choice)

lemma test_table:
  assumes "numpy_contract np"
  shows "DataFrame_dict (fst (test_columns np s))
           = Inr \<lparr>df_index = n_rows, df_cols = fst (test_columns np s)\<rparr>"
proof -
  obtain c xs rest where d: "fst (test_columns np s) = (c, xs) # rest"
    using test_columns_names[of np s] by (cases "fst (test_columns np s)") (auto simp: test_column_names_def)
  have "list_all (\<lambda>(c, xs). length xs = n_rows) ((c, xs) # rest)"
    using test_columns_lengths[OF assms, of s] d by simp
  then have "length xs = n_rows" "list_all (\<lambda>(c', ys). length ys = length xs) rest"
    by (auto simp: list_all_iff)
  then show ?thesis by (simp add: DataFrame_dict_def d)
qed

lemma test_columns_seed:
  assumes "numpy_contract np"
  shows "test_columns np s = test_columns np s'"
  by (simp add: test_columns_def contract_seed[OF assms, of 42 s s'])

lemma column_rating:
  "\<exists>s1. column \<lparr>df_index = n, df_cols = fst (test_columns np s)\<rparr> ''overall_rating''
          = map PInt (fst (np_randint np 1 6 n_rows s1))"
  by (simp add: test_columns_def Let_def case_prod_beta column_def) blast

lemma column_duration:
  "\<exists>s1. column \<lparr>df_index = n, df_cols = fst (test_columns np s)\<rparr> ''duration''
          = map PInt (fst (np_randint np 1 365 n_rows s1))"
  by (simp add: test_columns_def Let_def case_prod_beta column_def) blast

lemma column_age:
  "\<exists>s1. column \<lparr>df_index = n, df_cols = fst (test_columns np s)\<rparr> ''age''
          = map PInt (fst (np_randint np 18 80 n_rows s1))"
  by (simp add: test_columns_def Let_def case_prod_beta column_def) blast

lemma column_length:
  assumes "list_all (\<lambda>(c, xs). length xs = n) l" "c \<in> set (map fst l)"
  shows "length (column \<lparr>df_index = k, df_cols = l\<rparr> c) = n"
proof -
  obtain xs where m: "map_of l c = Some xs"
    using assms(2) by (metis map_of_eq_None_iff not_Some_eq set_map)
  then have "(c, xs) \<in> set l" by (rule map_of_SomeD)
  then have "length xs = n" using assms(1) by (auto simp: list_all_iff)
  then show ?thesis using m by (simp add: column_def)
qed

subsection \<open>The loop of \<open>main\<close>\<close>

lemma export_steps_formats:
  "export_steps pp = map (\<lambda>(f, label, ext). (f, label, target pp ext)) formats"
  by (simp add: export_steps_def formats_def)

lemma run_exports_dirs:
  assumes "node_at (files w) q = Some Dir"
  shows "node_at (files (run_exports enc df steps w)) q = Some Dir"
  using assms
proof (induction steps arbitrary: w)
  case Nil
  then show ?case by simp
next
  case (Cons s steps)
  obtain f label p where s: "s = (f, label, p)" by (cases s) auto
  show ?case
    unfolding s run_exports.simps
    by (rule Cons.IH) (rule try_export_dirs[OF Cons.prems])
qed

lemma Path_mkdir_existing:
  assumes "node_at (files w) (resolve (cwd w) p) = Some Dir"
  shows "Path_mkdir p parents True w = (None, w\<lparr>trace := trace w @ [Mkdir p]\<rparr>)"
  using mkdir_existing[OF assms, of parents] by (simp add: Path_mkdir_def)

lemma write_files_keeps_dir:
  assumes mk: "Path_mkdir (parent pp) True True w = (None, w0)" and nm: "name pp \<noteq> []"
    and wf: "write_files enc df pp w = (r, v)"
  shows "r = None" "cwd v = cwd w" "clock v = clock w"
    "node_at (files v) (resolve (cwd w) (parent pp)) = Some Dir"
proof -
  have v: "r = None" "v = run_exports enc df (export_steps pp) w0"
    using wf write_files_run[OF mk nm, of enc df] by auto
  show "r = None" by (rule v)
  show "cwd v = cwd w" "clock v = clock w"
    using write_files_effect[OF mk nm, of enc df] wf by auto
  show "node_at (files v) (resolve (cwd w) (parent pp)) = Some Dir"
    unfolding v by (rule run_exports_dirs) (rule Path_mkdir_dir(1)[OF mk])
qed

lemma main_run:
  assumes g1: "generate_data (clock w) ''sample'' (sample_rows a) = Inr df1"
    and g2: "generate_data (clock w) ''sample2'' (sample2_rows a) = Inr df2"
    and mk: "Path_mkdir (base_dir a) True True w = (None, w0)"
  shows "\<exists>v1 v2.
           write_files enc df1 (joinpath (base_dir a) ''sample'') w = (None, v1)
         \<and> Path_mkdir (base_dir a) True True v1
             = (None, v1\<lparr>trace := trace v1 @ [Mkdir (base_dir a)]\<rparr>)
         \<and> cwd v1 = cwd w
         \<and> write_files enc df2 (joinpath (base_dir a) ''sample2'') v1 = (None, v2)
         \<and> main enc a w = (None, v2)"
proof -
  let ?b = "base_dir a"
  let ?p1 = "joinpath ?b ''sample''" and ?p2 = "joinpath ?b ''sample2''"
  have mk1: "Path_mkdir (parent ?p1) True True w = (None, w0)"
    using mk by (simp add: parent_joinpath)
  have n1: "name ?p1 \<noteq> []" and n2: "name ?p2 \<noteq> []" by (simp_all add: name_joinpath)
  obtain v1 where wf1: "write_files enc df1 ?p1 w = (None, v1)"
    using write_files_run[OF mk1 n1] by blast
  note k = write_files_keeps_dir[OF mk1 n1 wf1]
  have "node_at (files v1) (resolve (cwd v1) ?b) = Some Dir"
    using k(2) k(4) by (simp add: parent_joinpath)
  then have mk2: "Path_mkdir ?b True True v1 = (None, v1\<lparr>trace := trace v1 @ [Mkdir ?b]\<rparr>)"
    by (rule Path_mkdir_existing)
  then have mk2': "Path_mkdir (parent ?p2) True True v1 = (None, v1\<lparr>trace := trace v1 @ [Mkdir ?b]\<rparr>)"
    by (simp add: parent_joinpath)
  obtain v2 where wf2: "write_files enc df2 ?p2 v1 = (None, v2)"
    using write_files_run[OF mk2' n2] by blast
  have "main enc a w = (None, v2)"
    by (simp add: main_def Let_def g1 g2 wf1 wf2 k(3))
  then show ?thesis using wf1 mk2 wf2 k(2) by blast
qed

lemma main_exit_iff:
  "exit_status (main enc a w) = 0 \<longleftrightarrow>
     (\<exists>df1. generate_data (clock w) ''sample'' (sample_rows a) = Inr df1)
     \<and> (\<exists>df2. generate_data (clock w) ''sample2'' (sample2_rows a) = Inr df2)
     \<and> fst (Path_mkdir (base_dir a) True True w) = None"
proof (cases "generate_data (clock w) ''sample'' (sample_rows a)")
  case (Inl e)
  then show ?thesis by (simp add: main_def exit_status_def)
next
  case g1: (Inr df1)
  obtain r w0 where mk: "Path_mkdir (base_dir a) True True w = (r, w0)"
    by (cases "Path_mkdir (base_dir a) True True w")
  show ?thesis
  proof (cases r)
    case (Some e)
    then have "write_files enc df1 (joinpath (base_dir a) ''sample'') w = (Some e, w0)"
      using mk by (intro write_files_raises) (simp add: parent_joinpath)
    then show ?thesis using g1 mk Some by (simp add: main_def exit_status_def)
  next
    case None
    have mk1: "Path_mkdir (parent (joinpath (base_dir a) ''sample'')) True True w = (None, w0)"
      using mk None by (simp add: parent_joinpath)
    have n1: "name (joinpath (base_dir a) ''sample'') \<noteq> []" by (simp add: name_joinpath)
    obtain v1 where wf1: "write_files enc df1 (joinpath (base_dir a) ''sample'') w = (None, v1)"
      using write_files_run[OF mk1 n1] by blast
    have c1: "clock v1 = clock w" using write_files_keeps_dir(3)[OF mk1 n1 wf1] .
    show ?thesis
    proof (cases "generate_data (clock w) ''sample2'' (sample2_rows a)")
      case (Inl e)
      then show ?thesis using g1 wf1 c1 by (simp add: main_def exit_status_def)
    next
      case g2: (Inr df2)
      from main_run[OF g1 g2, of w0 enc] mk None obtain v2 where "main enc a w = (None, v2)"
        by auto
      then show ?thesis using g1 g2 mk None by (simp add: exit_status_def)
    qed
  qed
qed

subsection \<open>The effect of \<open>create_test_data\<close>\<close>

lemma print_out_frame:
  "files (print_out line w) = files w" "trace (print_out line w) = trace w"
  "cwd (print_out line w) = cwd w" "stderr (print_out line w) = stderr w"
  by (simp_all add: print_out_def)

lemma print_fold_frame:
  "files (foldl (\<lambda>w (c, xs). print_out (g c xs) w) w cols) = files w
   \<and> trace (foldl (\<lambda>w (c, xs). print_out (g c xs) w) w cols) = trace w
   \<and> cwd (foldl (\<lambda>w (c, xs). print_out (g c xs) w) w cols) = cwd w
   \<and> stderr (foldl (\<lambda>w (c, xs). print_out (g c xs) w) w cols) = stderr w"
  by (induction cols arbitrary: w) (auto simp: print_out_def)

lemma mkdir_noparents:
  assumes "mkdir cw p False exist_ok fsys = Inr fsb"
  shows "fsb = fsys \<or> fsb = fsys(resolve cw p \<mapsto> Dir)"
proof (cases "os_mkdir (resolve cw p) fsys")
  case (Inr fsa)
  then have "fsb = fsa" using assms by (subst (asm) mkdir.simps) simp
  moreover have "fsa = fsys(resolve cw p \<mapsto> Dir)"
    using Inr by (auto simp: os_mkdir_def split: if_splits option.splits node.splits)
  ultimately show ?thesis by simp
next
  case (Inl e)
  obtain k msg where e: "e = Exc k msg" by (cases e)
  show ?thesis
    using assms Inl e by (subst (asm) mkdir.simps) (auto split: if_splits)
qed

lemma create_test_data_Inr:
  assumes "create_test_data np enc s w = (Inr out, s', w')"
  shows "\<exists>df w1 w2. DataFrame_dict (fst (test_columns np s)) = Inr df
           \<and> Path_mkdir (Rel [''test_data'']) False True w = (None, w1)
           \<and> to_file enc Parquet df (Rel [''test_data'', ''test_reviews.parquet'']) w1 = (None, w2)
           \<and> out = Rel [''test_data'', ''test_reviews.parquet'']
           \<and> files w' = files w2 \<and> trace w' = trace w2 \<and> cwd w' = cwd w2
           \<and> stderr w' = stderr w2"
proof -
  obtain data s0 where tc: "test_columns np s = (data, s0)" by (cases "test_columns np s")
  obtain df where df: "DataFrame_dict data = Inr df"
    using assms tc by (cases "DataFrame_dict data") (auto simp: create_test_data_def)
  obtain r1 w1 where m: "Path_mkdir (Rel [''test_data'']) False True w = (r1, w1)"
    by (cases "Path_mkdir (Rel [''test_data'']) False True w")
  have r1: "r1 = None"
    using assms tc df m by (cases r1) (auto simp: create_test_data_def Let_def)
  obtain r2 w2 where t: "to_file enc Parquet df (Rel [''test_data'', ''test_reviews.parquet'']) w1 = (r2, w2)"
    by (cases "to_file enc Parquet df (Rel [''test_data'', ''test_reviews.parquet'']) w1")
  have r2: "r2 = None"
    using assms tc df m r1 t by (cases r2) (auto simp: create_test_data_def Let_def)
  have "out = Rel [''test_data'', ''test_reviews.parquet'']
        \<and> files w' = files w2 \<and> trace w' = trace w2 \<and> cwd w' = cwd w2 \<and> stderr w' = stderr w2"
    using assms tc df m r1 t r2
    by (auto simp: create_test_data_def Let_def print_fold_frame print_out_frame)
  then show ?thesis using tc df m r1 t r2 by auto
qed

lemma create_test_data_ok:
  assumes "numpy_contract np"
    and "Path_mkdir (Rel [''test_data'']) False True w = (None, w1)"
    and "to_file enc Parquet \<lparr>df_index = n_rows, df_cols = fst (test_columns np s)\<rparr>
           (Rel [''test_data'', ''test_reviews.parquet'']) w1 = (None, w2)"
  shows "\<exists>w'. create_test_data np enc s w
                = (Inr (Rel [''test_data'', ''test_reviews.parquet'']), snd (test_columns np s), w')
           \<and> files w' = files w2 \<and> trace w' = trace w2"
  using assms(2,3) test_table[OF assms(1), of s]
  by (auto simp: create_test_data_def Let_def case_prod_beta print_fold_frame print_out_frame)

lemma create_test_data_frame:
  assumes "create_test_data np enc s w = (Inr out, s', w')"
  shows "out = Rel [''test_data'', ''test_reviews.parquet'']
       \<and> trace w' = trace w @ [Mkdir (Rel [''test_data'']),
                                 Export Parquet (Rel [''test_data'', ''test_reviews.parquet''])]
       \<and> (\<forall>q. q \<noteq> cwd w @ [''test_data''] \<and> q \<noteq> cwd w @ [''test_data'', ''test_reviews.parquet'']
              \<longrightarrow> files w' q = files w q)
       \<and> (\<exists>c. files w' (cwd w @ [''test_data'', ''test_reviews.parquet'']) = Some (File c))"
proof -
  from create_test_data_Inr[OF assms] obtain df w1 w2 where
    m: "Path_mkdir (Rel [''test_data'']) False True w = (None, w1)" and
    t: "to_file enc Parquet df (Rel [''test_data'', ''test_reviews.parquet'']) w1 = (None, w2)" and
    o: "out = Rel [''test_data'', ''test_reviews.parquet'']" and
    f: "files w' = files w2" "trace w' = trace w2" by blast
  from Path_mkdir_None[OF m] obtain fsb where
    mk: "mkdir (cwd w) (Rel [''test_data'']) False True (files w) = Inr fsb" and
    w1: "w1 = w\<lparr>trace := trace w @ [Mkdir (Rel [''test_data''])], files := fsb\<rparr>" by blast
  have fsb: "fsb = files w \<or> fsb = (files w)(cwd w @ [''test_data''] \<mapsto> Dir)"
    using mkdir_noparents[OF mk] by simp
  have "fst (to_file enc Parquet df (Rel [''test_data'', ''test_reviews.parquet'']) w1) = None"
    using t by simp
  from to_file_None[OF this] t obtain c where
    w2: "w2 = w1\<lparr>trace := trace w1 @ [Export Parquet (Rel [''test_data'', ''test_reviews.parquet''])],
                files := (files w1)(resolve (cwd w1) (Rel [''test_data'', ''test_reviews.parquet''])
                                     \<mapsto> File c)\<rparr>"
    by auto
  show ?thesis
    using o f fsb unfolding w2 w1 by auto
qed

subsection \<open>What \<open>write_files\<close> does for each format\<close>

lemma formats_ext:
  "(f, label, ext) \<in> set formats \<Longrightarrow> ext \<in> {''.csv'', ''.json'', ''.parquet'', ''.xlsx''}"
  by (auto simp: formats_def)

lemma formats_step:
  "(f, label, ext) \<in> set formats \<Longrightarrow> (f, label, target pp ext) \<in> set (export_steps pp)"
  by (auto simp: formats_def export_steps_def)

lemma to_file_enc_fails:
  "enc f df = Inl e \<Longrightarrow> fst (to_file enc f df p w) = Some e"
  by (simp add: to_file_def Let_def)

lemma write_files_format:
  assumes mk: "Path_mkdir (parent pp) True True w = (None, w0)" and nm: "name pp \<noteq> []"
    and fm: "(f, label, ext) \<in> set formats"
    and wf: "write_files enc df pp w = (r, v)"
  shows "r = None"
    and "with_suffix pp ext = Inr (target pp ext)"
    and "Export f (target pp ext) \<in> set (trace v)"
    and "fst (to_file enc f df (target pp ext) w0) = Some e
           \<Longrightarrow> err_line label (target pp ext) e \<in> set (stderr v)"
    and "fst (to_file enc f df (target pp ext) w0) = None
           \<Longrightarrow> out_line label (target pp ext) \<in> set (stdout v)
               \<and> (\<exists>c. enc f df = Inr c
                      \<and> files v (resolve (cwd w) (target pp ext)) = Some (File c))"
    and "enc f df = Inl e \<Longrightarrow> err_line label (target pp ext) e \<in> set (stderr v)"
proof -
  let ?s = "(f, label, target pp ext)"
  have st: "?s \<in> set (export_steps pp)" using fm by (rule formats_step)
  from write_files_effect[OF mk nm, of enc df] wf have
    r: "r = None" and
    tr: "trace v = trace w @ Mkdir (parent pp) # map (\<lambda>(f, label, p). Export f p) (export_steps pp)" and
    so: "stdout v = stdout w @ concat (map (step_out enc df w0) (export_steps pp))" and
    se: "stderr v = stderr w @ concat (map (step_err enc df w0) (export_steps pp))" and
    sf: "\<forall>s \<in> set (export_steps pp). step_file enc df w0 v s"
    by auto
  have cw: "cwd w0 = cwd w" using Path_mkdir_dir(2)[OF mk] .
  show "r = None" by (rule r)
  show "with_suffix pp ext = Inr (target pp ext)"
    using nm formats_ext[OF fm] by (rule with_suffix_target)
  have "Export f (target pp ext) \<in> (\<lambda>(f, label, p). Export f p) ` set (export_steps pp)"
    using st by force
  then show "Export f (target pp ext) \<in> set (trace v)" unfolding tr by simp
  show err: "err_line label (target pp ext) e \<in> set (stderr v)"
    if "fst (to_file enc f df (target pp ext) w0) = Some e" for e
  proof -
    have "err_line label (target pp ext) e \<in> set (step_err enc df w0 ?s)"
      using that by (simp add: step_err_def)
    then show ?thesis unfolding se using st by auto
  qed
  show "out_line label (target pp ext) \<in> set (stdout v)
          \<and> (\<exists>c. enc f df = Inr c \<and> files v (resolve (cwd w) (target pp ext)) = Some (File c))"
    if n: "fst (to_file enc f df (target pp ext) w0) = None"
  proof -
    have "out_line label (target pp ext) \<in> set (step_out enc df w0 ?s)"
      using n by (simp add: step_out_def)
    then have "out_line label (target pp ext) \<in> set (stdout v)" unfolding so using st by auto
    moreover have "step_file enc df w0 v ?s" using sf st by blast
    then have "\<exists>c. enc f df = Inr c \<and> files v (resolve (cwd w) (target pp ext)) = Some (File c)"
      using n by (simp add: step_file_def cw)
    ultimately show ?thesis by simp
  qed
  show "err_line label (target pp ext) e \<in> set (stderr v)" if "enc f df = Inl e"
    using that by (intro err to_file_enc_fails)
qed

lemma resolve_ancestor_length:
  "length (resolve cw ((parent ^^ k) p)) \<le> length (resolve cw p)"
proof -
  let ?a = "(parent ^^ k) p"
  have l: "length (parts ?a) \<le> length (parts p)" by (rule funpow_parent_length)
  have kd: "(case ?a of Abs _ \<Rightarrow> True | Rel _ \<Rightarrow> False) = (case p of Abs _ \<Rightarrow> True | Rel _ \<Rightarrow> False)"
    by (rule funpow_parent_kind)
  show ?thesis using l kd by (cases ?a; cases p) auto
qed

lemma stem_joinpath_sample:
  "stem (joinpath b ''sample'') = ''sample''" "stem (joinpath b ''sample2'') = ''sample2''"
  by (simp_all add: stem_def name_joinpath suffix_def)

lemma with_name_joinpath: "with_name (joinpath b c) n = joinpath b n"
  by (cases b) auto

lemma target_sample:
  "target (joinpath b ''sample'') ext = joinpath b (''sample'' @ ext)"
  "target (joinpath b ''sample2'') ext = joinpath b (''sample2'' @ ext)"
  by (simp_all add: target_def stem_joinpath_sample with_name_joinpath)

subsection \<open>Creating a directory that does not exist\<close>

lemma Path_mkdir_parents:
  assumes "tree (files w)" "node_at (files w) (cwd w) = Some Dir"
    and "\<forall>k b. node_at (files w) (resolve (cwd w) ((parent ^^ k) p)) \<noteq> Some (File b)"
  shows "\<exists>w0. Path_mkdir p True True w = (None, w0)
           \<and> trace w0 = trace w @ [Mkdir p] \<and> cwd w0 = cwd w
           \<and> (\<forall>k. node_at (files w0) (resolve (cwd w) ((parent ^^ k) p)) = Some Dir)
           \<and> (\<forall>q. (\<forall>k. q \<noteq> resolve (cwd w) ((parent ^^ k) p)) \<longrightarrow> files w0 q = files w q)"
proof -
  from mkdir_parents[OF assms] obtain fsb where
    "mkdir (cwd w) p True True (files w) = Inr fsb"
    "\<forall>k. node_at fsb (resolve (cwd w) ((parent ^^ k) p)) = Some Dir"
    "\<forall>q. (\<forall>k. q \<noteq> resolve (cwd w) ((parent ^^ k) p)) \<longrightarrow> fsb q = files w q"
    by blast
  then show ?thesis by (simp add: Path_mkdir_def)
qed

lemma world_example_tree:
  "tree (files world_example)" "node_at (files world_example) (cwd world_example) = Some Dir"
  "\<forall>k b. node_at (files world_example) (resolve (cwd world_example) ((parent ^^ k) p))
           \<noteq> Some (File b)"
  by (auto simp: world_example_def tree_def node_at_def)

lemma absent_children:
  assumes "tree fsys" "node_at fsys d = None"
  shows "fsys (d @ [c]) = None"
proof (rule ccontr)
  assume "fsys (d @ [c]) \<noteq> None"
  then have "node_at fsys (butlast (d @ [c])) = Some Dir"
    using assms(1) unfolding tree_def by blast
  then show False using assms(2) by simp
qed

lemma write_files_stderr_grows:
  assumes "Path_mkdir (parent pp) True True w = (None, w0)" "name pp \<noteq> []"
    and "write_files enc df pp w = (r, v)"
  shows "set (stderr w) \<subseteq> set (stderr v)"
  using write_files_effect[OF assms(1,2), of enc df] assms(3) by auto

lemma write_files_frame:
  assumes "Path_mkdir (parent pp) True True w = (None, w0)" "name pp \<noteq> []"
    and "write_files enc df pp w = (r, v)"
    and "\<forall>ext \<in> {''.csv'', ''.json'', ''.parquet'', ''.xlsx''}.
           q \<noteq> resolve (cwd w) (parent pp) @ [stem pp @ ext]"
  shows "files v q = files w0 q"
proof -
  have "q \<notin> set (map (step_path w0) (export_steps pp))"
    unfolding export_steps_paths[OF assms(2) Path_mkdir_dir(2)[OF assms(1)]]
    using assms(4) by auto
  then show ?thesis
    using write_files_effect[OF assms(1,2), of enc df] assms(3) by auto
qed

subsection \<open>The files a run touches\<close>

lemma mkdir_frame:
  "mkdir cw p parents exist_ok fsys = Inr fsb
     \<Longrightarrow> (\<forall>k. q \<noteq> resolve cw ((parent ^^ k) p)) \<Longrightarrow> fsb q = fsys q"
proof (induction cw p parents exist_ok fsys arbitrary: fsb rule: mkdir.induct)
  case (1 cw p parents exist_ok fsys)
  have q0: "q \<noteq> resolve cw p" using "1.prems"(2) by (metis funpow_0)
  show ?case
  proof (cases "os_mkdir (resolve cw p) fsys")
    case (Inr fsa)
    then have "fsb = fsa" using "1.prems"(1) by (subst (asm) mkdir.simps) simp
    moreover have "fsa = fsys(resolve cw p \<mapsto> Dir)"
      using Inr by (auto simp: os_mkdir_def split: if_splits option.splits node.splits)
    ultimately show ?thesis using q0 by simp
  next
    case (Inl e)
    obtain k msg where e: "e = Exc k msg" by (cases e)
    show ?thesis
    proof (cases "k = FileNotFoundError")
      case True
      with Inl e "1.prems"(1) obtain fsa where
        a: "\<not> (\<not> parents \<or> parent p = p)" and
        b: "mkdir cw (parent p) True True fsys = Inr fsa" and
        c: "mkdir cw p False exist_ok fsa = Inr fsb"
        by (subst (asm) mkdir.simps) (auto split: if_splits sum.splits)
      have "\<forall>k. q \<noteq> resolve cw ((parent ^^ k) (parent p))"
        using "1.prems"(2) by (metis funpow_parent_Suc)
      then have "fsa q = fsys q"
        using "1.IH"(1)[OF Inl e True a b] by simp
      moreover have "fsb q = fsa q"
        using "1.IH"(2)[OF Inl e True a b c "1.prems"(2)] .
      ultimately show ?thesis by simp
    next
      case False
      with Inl e "1.prems"(1) show ?thesis
        by (subst (asm) mkdir.simps) (auto split: if_splits)
    qed
  qed
qed

lemma main_effect:
  assumes "main enc a w = (None, v)"
  shows "trace v = trace w @
           [Mkdir (base_dir a),
            Export CSV (joinpath (base_dir a) ''sample.csv''),
            Export JSON (joinpath (base_dir a) ''sample.json''),
            Export Parquet (joinpath (base_dir a) ''sample.parquet''),
            Export Excel (joinpath (base_dir a) ''sample.xlsx''),
            Mkdir (base_dir a),
            Export CSV (joinpath (base_dir a) ''sample2.csv''),
            Export JSON (joinpath (base_dir a) ''sample2.json''),
            Export Parquet (joinpath (base_dir a) ''sample2.parquet''),
            Export Excel (joinpath (base_dir a) ''sample2.xlsx'')]"
    and "(\<forall>k. q \<noteq> resolve (cwd w) ((parent ^^ k) (base_dir a)))
         \<Longrightarrow> q \<notin> set (map (\<lambda>n. resolve (cwd w) (joinpath (base_dir a) n))
                          [''sample.csv'', ''sample.json'', ''sample.parquet'', ''sample.xlsx'',
                           ''sample2.csv'', ''sample2.json'', ''sample2.parquet'',
                           ''sample2.xlsx''])
         \<Longrightarrow> files v q = files w q"
proof -
  let ?b = "base_dir a"
  let ?p1 = "joinpath ?b ''sample''" and ?p2 = "joinpath ?b ''sample2''"
  have "exit_status (main enc a w) = 0" using assms by (simp add: exit_status_def)
  then obtain df1 df2 where
    g1: "generate_data (clock w) ''sample'' (sample_rows a) = Inr df1" and
    g2: "generate_data (clock w) ''sample2'' (sample2_rows a) = Inr df2" and
    m: "fst (Path_mkdir ?b True True w) = None"
    unfolding main_exit_iff by blast
  obtain w0 where mk: "Path_mkdir ?b True True w = (None, w0)"
    using m by (cases "Path_mkdir ?b True True w") auto
  from main_run[OF g1 g2 mk, of enc] assms obtain v1 where
    wf1: "write_files enc df1 ?p1 w = (None, v1)" and
    mk2: "Path_mkdir ?b True True v1 = (None, v1\<lparr>trace := trace v1 @ [Mkdir ?b]\<rparr>)" and
    c1: "cwd v1 = cwd w" and
    wf2: "write_files enc df2 ?p2 v1 = (None, v)"
    by auto
  have mk1: "Path_mkdir (parent ?p1) True True w = (None, w0)"
    using mk by (simp add: parent_joinpath)
  have mk2': "Path_mkdir (parent ?p2) True True v1 = (None, v1\<lparr>trace := trace v1 @ [Mkdir ?b]\<rparr>)"
    using mk2 by (simp add: parent_joinpath)
  have n1: "name ?p1 \<noteq> []" and n2: "name ?p2 \<noteq> []" by (simp_all add: name_joinpath)
  from write_files_effect[OF mk1 n1, of enc df1] wf1 have
    t1: "trace v1 = trace w @ Mkdir (parent ?p1) # map (\<lambda>(f, label, p). Export f p) (export_steps ?p1)"
    by simp
  from write_files_effect[OF mk2' n2, of enc df2] wf2 have
    t2: "trace v = trace v1 @ Mkdir (parent ?p2) # map (\<lambda>(f, label, p). Export f p) (export_steps ?p2)"
    by simp
  show "trace v = trace w @
           [Mkdir ?b,
            Export CSV (joinpath ?b ''sample.csv''),
            Export JSON (joinpath ?b ''sample.json''),
            Export Parquet (joinpath ?b ''sample.parquet''),
            Export Excel (joinpath ?b ''sample.xlsx''),
            Mkdir ?b,
            Export CSV (joinpath ?b ''sample2.csv''),
            Export JSON (joinpath ?b ''sample2.json''),
            Export Parquet (joinpath ?b ''sample2.parquet''),
            Export Excel (joinpath ?b ''sample2.xlsx'')]"
    unfolding t2 t1 by (simp add: export_steps_def target_sample parent_joinpath)
  assume q1: "\<forall>k. q \<noteq> resolve (cwd w) ((parent ^^ k) ?b)"
    and q2: "q \<notin> set (map (\<lambda>n. resolve (cwd w) (joinpath ?b n))
                          [''sample.csv'', ''sample.json'', ''sample.parquet'', ''sample.xlsx'',
                           ''sample2.csv'', ''sample2.json'', ''sample2.parquet'',
                           ''sample2.xlsx''])"
  from Path_mkdir_None[OF mk] obtain fsb where
    "mkdir (cwd w) ?b True True (files w) = Inr fsb" and w0: "w0 = w\<lparr>trace := trace w @ [Mkdir ?b], files := fsb\<rparr>"
    by blast
  then have "fsb q = files w q" using q1 by (intro mkdir_frame)
  then have f0: "files w0 q = files w q" using w0 by simp
  have "\<forall>ext \<in> {''.csv'', ''.json'', ''.parquet'', ''.xlsx''}.
           q \<noteq> resolve (cwd w) (parent ?p1) @ [stem ?p1 @ ext]"
    using q2 by (simp add: parent_joinpath stem_joinpath_sample resolve_joinpath)
  then have f1: "files v1 q = files w0 q"
    using write_files_frame[OF mk1 n1 wf1] by blast
  have "\<forall>ext \<in> {''.csv'', ''.json'', ''.parquet'', ''.xlsx''}.
           q \<noteq> resolve (cwd v1) (parent ?p2) @ [stem ?p2 @ ext]"
    using q2 by (simp add: parent_joinpath stem_joinpath_sample resolve_joinpath c1)
  then have "files v q = files (v1\<lparr>trace := trace v1 @ [Mkdir ?b]\<rparr>) q"
    using write_files_frame[OF mk2' n2 wf2] by blast
  then show "files v q = files w q" using f0 f1 by simp
qed

section \<open>The claims\<close>

subsection \<open>C1: the rows of \<^verbatim>\<open>generate_data\<close>\<close>

text \<open>
  C1 says that for every prefix and every row count \<open>N \<ge> 1\<close> the generator produces
  rows with \<open>id = i\<close>, \<open>name = prefix + '_item_' + str(i)\<close>,
  \<open>value = round(i * 1.1, 2)\<close>, \<open>flag = (i % 2 == 0)\<close> and
  \<open>category = ['A','B','C'][(i - 1) % 3]\<close>. As stated this fails: row \<open>i\<close> holds the
  date \<open>i\<close> days before today, and \<^verbatim>\<open>date\<close> has no day before 0001-01-01, so with
  \<open>N\<close> at least today's ordinal the subtraction raises \<^verbatim>\<open>OverflowError\<close> and no
  table is produced. On 2026-11-04 (ordinal 739924) that is \<open>N = 739924\<close>.
\<close>

theorem generate_data_overflow_counterexample:
  "generate_data 739924 ''sample'' 739924
     = Inl (Exc OverflowError ''date value out of range'')"
  by (rule generate_data_overflow) (simp_all add: date_max_def)

text \<open>
  C1 (amended): for every prefix \<open>p\<close>, every valid day \<open>today\<close> and every row count
  \<open>N\<close> with \<open>1 \<le> N\<close> below today's ordinal, \<open>generate_data\<close> returns a table whose
  row \<open>i\<close> (for \<open>1 \<le> i \<le> N\<close>, at position \<open>i - 1\<close>) has the five values of the claim;
  with prefix \<^verbatim>\<open>sample\<close> and \<open>N = 5\<close> the ids are 1..5, the names
  \<^verbatim>\<open>sample_item_1\<close>..\<^verbatim>\<open>sample_item_5\<close>, the values the floats written 1.1, 2.2, 3.3,
  4.4, 5.5, the flags False, True, False, True, False and the categories A, B, C, A, B.
\<close>

theorem generate_data_rows:
  assumes "1 \<le> N" "N < today" "today \<le> date_max"
  shows "(\<exists>df. generate_data today p N = Inr df \<and>
           (\<forall>i. 1 \<le> i \<and> i \<le> N \<longrightarrow>
              column df ''id'' ! nat (i - 1) = PInt i \<and>
              column df ''name'' ! nat (i - 1) = PStr (p @ ''_item_'' @ str_int i) \<and>
              column df ''value'' ! nat (i - 1)
                = PFloat (py_round (float_mul (float_of_int i) (float_literal 11 10)) 2) \<and>
              column df ''flag'' ! nat (i - 1) = PBool (i mod 2 = 0) \<and>
              column df ''category'' ! nat (i - 1)
                = PStr ([''A'', ''B'', ''C''] ! nat ((i - 1) mod 3))))
       \<and> (5 < today \<longrightarrow>
           (\<exists>df. generate_data today ''sample'' 5 = Inr df \<and>
              column df ''id'' = [PInt 1, PInt 2, PInt 3, PInt 4, PInt 5] \<and>
              column df ''name''
                = [PStr ''sample_item_1'', PStr ''sample_item_2'', PStr ''sample_item_3'',
                   PStr ''sample_item_4'', PStr ''sample_item_5''] \<and>
              column df ''value''
                = [PFloat (float_literal 11 10), PFloat (float_literal 22 10),
                   PFloat (float_literal 33 10), PFloat (float_literal 44 10),
                   PFloat (float_literal 55 10)] \<and>
              column df ''flag''
                = [PBool False, PBool True, PBool False, PBool True, PBool False] \<and>
              column df ''category''
                = [PStr ''A'', PStr ''B'', PStr ''C'', PStr ''A'', PStr ''B'']))"
proof (intro conjI impI)
  let ?df = "DataFrame_records (map (built_row p today) [1..N])"
  have ne: "[1..N] \<noteq> []" using assms(1) by (simp add: upto_rec1)
  have "generate_data today p N = Inr ?df"
    using assms by (intro generate_data_ok)
  moreover have "\<forall>i. 1 \<le> i \<and> i \<le> N \<longrightarrow>
              column ?df ''id'' ! nat (i - 1) = PInt i \<and>
              column ?df ''name'' ! nat (i - 1) = PStr (p @ ''_item_'' @ str_int i) \<and>
              column ?df ''value'' ! nat (i - 1)
                = PFloat (py_round (float_mul (float_of_int i) (float_literal 11 10)) 2) \<and>
              column ?df ''flag'' ! nat (i - 1) = PBool (i mod 2 = 0) \<and>
              column ?df ''category'' ! nat (i - 1)
                = PStr ([''A'', ''B'', ''C''] ! nat ((i - 1) mod 3))"
    unfolding column_built[OF ne] categories_def
    by (intro allI impI) (simp only: nth_map_upto)
  ultimately show "\<exists>df. generate_data today p N = Inr df \<and>
           (\<forall>i. 1 \<le> i \<and> i \<le> N \<longrightarrow>
              column df ''id'' ! nat (i - 1) = PInt i \<and>
              column df ''name'' ! nat (i - 1) = PStr (p @ ''_item_'' @ str_int i) \<and>
              column df ''value'' ! nat (i - 1)
                = PFloat (py_round (float_mul (float_of_int i) (float_literal 11 10)) 2) \<and>
              column df ''flag'' ! nat (i - 1) = PBool (i mod 2 = 0) \<and>
              column df ''category'' ! nat (i - 1)
                = PStr ([''A'', ''B'', ''C''] ! nat ((i - 1) mod 3)))"
    by blast
next
  assume t5: "5 < today"
  let ?df = "DataFrame_records (map (built_row ''sample'' today) [1..5])"
  have ne: "[1..5::int] \<noteq> []" by (simp add: upto_1_5)
  have "generate_data today ''sample'' 5 = Inr ?df"
    using t5 assms(3) by (intro generate_data_ok)
  moreover have "column ?df ''id'' = [PInt 1, PInt 2, PInt 3, PInt 4, PInt 5]"
    unfolding column_built[OF ne] by (simp add: upto_1_5)
  moreover have "column ?df ''name''
                = [PStr ''sample_item_1'', PStr ''sample_item_2'', PStr ''sample_item_3'',
                   PStr ''sample_item_4'', PStr ''sample_item_5'']"
    unfolding column_built[OF ne] by (simp add: upto_1_5 str_1_5)
  moreover have "column ?df ''value''
                = [PFloat (float_literal 11 10), PFloat (float_literal 22 10),
                   PFloat (float_literal 33 10), PFloat (float_literal 44 10),
                   PFloat (float_literal 55 10)]"
    unfolding column_built[OF ne]
    by (simp add: upto_1_5 value_1 value_2 value_3 value_4 value_5)
  moreover have "column ?df ''flag''
                = [PBool False, PBool True, PBool False, PBool True, PBool False]"
    unfolding column_built[OF ne] by (simp add: upto_1_5)
  moreover have "column ?df ''category''
                = [PStr ''A'', PStr ''B'', PStr ''C'', PStr ''A'', PStr ''B'']"
    unfolding column_built[OF ne] by (simp add: upto_1_5 categories_def)
  ultimately show "\<exists>df. generate_data today ''sample'' 5 = Inr df \<and>
              column df ''id'' = [PInt 1, PInt 2, PInt 3, PInt 4, PInt 5] \<and>
              column df ''name''
                = [PStr ''sample_item_1'', PStr ''sample_item_2'', PStr ''sample_item_3'',
                   PStr ''sample_item_4'', PStr ''sample_item_5''] \<and>
              column df ''value''
                = [PFloat (float_literal 11 10), PFloat (float_literal 22 10),
                   PFloat (float_literal 33 10), PFloat (float_literal 44 10),
                   PFloat (float_literal 55 10)] \<and>
              column df ''flag''
                = [PBool False, PBool True, PBool False, PBool True, PBool False] \<and>
              column df ''category''
                = [PStr ''A'', PStr ''B'', PStr ''C'', PStr ''A'', PStr ''B'']"
    by blast
qed

theorem generate_data_rows_witness:
  "\<exists>df. generate_data 739924 ''sample'' 5 = Inr df \<and>
      column df ''id'' = [PInt 1, PInt 2, PInt 3, PInt 4, PInt 5] \<and>
      column df ''name''
        = [PStr ''sample_item_1'', PStr ''sample_item_2'', PStr ''sample_item_3'',
           PStr ''sample_item_4'', PStr ''sample_item_5''] \<and>
      column df ''value''
        = [PFloat (float_literal 11 10), PFloat (float_literal 22 10),
           PFloat (float_literal 33 10), PFloat (float_literal 44 10),
           PFloat (float_literal 55 10)] \<and>
      column df ''flag''
        = [PBool False, PBool True, PBool False, PBool True, PBool False] \<and>
      column df ''category''
        = [PStr ''A'', PStr ''B'', PStr ''C'', PStr ''A'', PStr ''B'']"
  using generate_data_rows[of 5 739924 "''sample''"] by (simp add: date_max_def)


subsection \<open>C2: the shape of the table\<close>

text \<open>
  C2 says that for every \<open>N \<ge> 0\<close> the table has exactly \<open>N\<close> rows and the declared
  columns, the boundary case \<open>N = 0\<close> included. As stated this fails at \<open>N = 0\<close>: the
  generator declares no columns, it hands \<^verbatim>\<open>pd.DataFrame\<close> the list of row
  dictionaries, and for the empty list the frame has no rows and no columns. It also
  fails for \<open>N\<close> at least today's ordinal, where no table is produced (800000 rows
  on 2026-11-04).
\<close>

theorem generate_data_zero_rows_counterexample:
  "generate_data 739924 ''sample'' 0 = Inr \<lparr>df_index = 0, df_cols = []\<rparr>
   \<and> columns \<lparr>df_index = 0, df_cols = []\<rparr> = []
   \<and> generate_data 739924 ''sample2'' 800000
       = Inl (Exc OverflowError ''date value out of range'')"
proof -
  have "generate_data 739924 ''sample2'' 800000
          = Inl (Exc OverflowError ''date value out of range'')"
    by (rule generate_data_overflow) (simp_all add: date_max_def)
  then show ?thesis by (simp add: generate_data_empty columns_def)
qed

text \<open>
  C2 (amended): for every row count \<open>N\<close> with \<open>1 \<le> N\<close> below today's ordinal, the
  table of \<open>generate_data\<close> has exactly \<open>N\<close> rows and exactly the six columns id,
  name, value, date, flag, category, each of \<open>N\<close> cells; and the table
  \<open>create_test_data\<close> builds, with a NumPy that keeps its contract, has exactly 1000
  rows and its fourteen columns, each of 1000 cells.
\<close>

theorem table_shape:
  assumes "1 \<le> N" "N < today" "today \<le> date_max" "numpy_contract np"
  shows "(\<exists>df. generate_data today p N = Inr df \<and> df_index df = nat N \<and>
            columns df = [''id'', ''name'', ''value'', ''date'', ''flag'', ''category''] \<and>
            (\<forall>c \<in> set (columns df). length (column df c) = nat N))
       \<and> (\<exists>df. DataFrame_dict (fst (test_columns np s)) = Inr df \<and> df_index df = 1000 \<and>
            columns df
              = [''source'', ''product'', ''overall_rating'', ''condition'', ''comment'',
                 ''sex'', ''duration'', ''date'', ''age'', ''username'', ''patient_type'',
                 ''INN'', ''prediction'', ''predicted_label''] \<and>
            (\<forall>c \<in> set (columns df). length (column df c) = 1000))"
proof
  let ?df = "DataFrame_records (map (built_row p today) [1..N])"
  have ne: "[1..N] \<noteq> []" using assms(1) by (simp add: upto_rec1)
  have len: "length [1..N] = nat N" by simp
  have "generate_data today p N = Inr ?df"
    using assms(2,3) by (intro generate_data_ok)
  moreover have "df_index ?df = nat N" by (simp add: index_built)
  moreover have cs: "columns ?df = [''id'', ''name'', ''value'', ''date'', ''flag'', ''category'']"
    using columns_built[OF ne] by (simp add: row_keys_def)
  moreover have "\<forall>c \<in> set (columns ?df). length (column ?df c) = nat N"
    unfolding cs using column_built[OF ne, of p today] by (auto simp: len simp del: length_upto)
  ultimately show "\<exists>df. generate_data today p N = Inr df \<and> df_index df = nat N \<and>
            columns df = [''id'', ''name'', ''value'', ''date'', ''flag'', ''category''] \<and>
            (\<forall>c \<in> set (columns df). length (column df c) = nat N)"
    by blast
next
  let ?l = "fst (test_columns np s)"
  let ?df = "\<lparr>df_index = n_rows, df_cols = ?l\<rparr>"
  have "DataFrame_dict ?l = Inr ?df"
    using assms(4) by (rule test_table)
  moreover have "df_index ?df = 1000" by (simp add: n_rows_def)
  moreover have cs: "columns ?df = test_column_names"
    by (simp add: columns_def test_columns_names)
  moreover have "\<forall>c \<in> set (columns ?df). length (column ?df c) = 1000"
  proof
    fix c assume "c \<in> set (columns ?df)"
    then have "c \<in> set (map fst ?l)" by (simp add: columns_def)
    then have "length (column ?df c) = n_rows"
      using test_columns_lengths[OF assms(4), of s] by (intro column_length)
    then show "length (column ?df c) = 1000" by (simp add: n_rows_def)
  qed
  ultimately show "\<exists>df. DataFrame_dict (fst (test_columns np s)) = Inr df \<and> df_index df = 1000 \<and>
            columns df
              = [''source'', ''product'', ''overall_rating'', ''condition'', ''comment'',
                 ''sex'', ''duration'', ''date'', ''age'', ''username'', ''patient_type'',
                 ''INN'', ''prediction'', ''predicted_label''] \<and>
            (\<forall>c \<in> set (columns df). length (column df c) = 1000)"
    unfolding test_column_names_def by blast
qed

theorem table_shape_witness:
  "numpy_contract np_example
   \<and> (\<exists>df. generate_data 739924 ''sample'' 5 = Inr df \<and> df_index df = 5 \<and>
         columns df = [''id'', ''name'', ''value'', ''date'', ''flag'', ''category''] \<and>
         length (column df ''value'') = 5)
   \<and> (\<exists>df. DataFrame_dict (fst (test_columns np_example 0)) = Inr df \<and> df_index df = 1000 \<and>
         length (column df ''age'') = 1000)"
  using table_shape[of 5 739924 np_example "''sample''" 0] np_example_contract
  by (auto simp: date_max_def)

subsection \<open>C4: the bounded random columns\<close>

text \<open>
  C4: in the table \<open>create_test_data\<close> builds, every cell of \<open>overall_rating\<close> is an
  integer in \<open>[1, 5]\<close>, every cell of \<open>age\<close> one in \<open>[18, 80]\<close> and every cell of
  \<open>duration\<close> one in \<open>[1, 365]\<close>, for each of the 1000 rows. The bounds come from
  \<^verbatim>\<open>randint(1, 6)\<close>, \<^verbatim>\<open>randint(18, 80)\<close> and \<^verbatim>\<open>randint(1, 365)\<close>, whose upper end is
  excluded, so NumPy's contract is the hypothesis.
\<close>

theorem bounded_random_columns:
  assumes "numpy_contract np"
  shows "\<exists>df. DataFrame_dict (fst (test_columns np s)) = Inr df \<and>
           length (column df ''overall_rating'') = 1000 \<and>
           length (column df ''age'') = 1000 \<and>
           length (column df ''duration'') = 1000 \<and>
           (\<forall>v \<in> set (column df ''overall_rating''). \<exists>i. v = PInt i \<and> 1 \<le> i \<and> i \<le> 5) \<and>
           (\<forall>v \<in> set (column df ''age''). \<exists>i. v = PInt i \<and> 18 \<le> i \<and> i \<le> 80) \<and>
           (\<forall>v \<in> set (column df ''duration''). \<exists>i. v = PInt i \<and> 1 \<le> i \<and> i \<le> 365)"
proof -
  let ?df = "\<lparr>df_index = n_rows, df_cols = fst (test_columns np s)\<rparr>"
  obtain s1 where r: "column ?df ''overall_rating'' = map PInt (fst (np_randint np 1 6 n_rows s1))"
    using column_rating[of n_rows np s] by (elim exE)
  obtain s2 where a: "column ?df ''age'' = map PInt (fst (np_randint np 18 80 n_rows s2))"
    using column_age[of n_rows np s] by (elim exE)
  obtain s3 where d: "column ?df ''duration'' = map PInt (fst (np_randint np 1 365 n_rows s3))"
    using column_duration[of n_rows np s] by (elim exE)
  have "DataFrame_dict (fst (test_columns np s)) = Inr ?df"
    using assms by (rule test_table)
  moreover have "length (column ?df ''overall_rating'') = 1000"
    "length (column ?df ''age'') = 1000" "length (column ?df ''duration'') = 1000"
    unfolding r a d by (simp_all add: contract_randint(1)[OF assms] n_rows_def)
  moreover have "\<forall>v \<in> set (column ?df ''overall_rating''). \<exists>i. v = PInt i \<and> 1 \<le> i \<and> i \<le> 5"
    unfolding r using contract_randint(2)[OF assms, of 1 6] by fastforce
  moreover have "\<forall>v \<in> set (column ?df ''age''). \<exists>i. v = PInt i \<and> 18 \<le> i \<and> i \<le> 80"
    unfolding a using contract_randint(2)[OF assms, of 18 80] by fastforce
  moreover have "\<forall>v \<in> set (column ?df ''duration''). \<exists>i. v = PInt i \<and> 1 \<le> i \<and> i \<le> 365"
    unfolding d using contract_randint(2)[OF assms, of 1 365] by fastforce
  ultimately show ?thesis by blast
qed

theorem bounded_random_columns_witness:
  "numpy_contract np_example
   \<and> (\<exists>df. DataFrame_dict (fst (test_columns np_example 0)) = Inr df \<and>
         length (column df ''overall_rating'') = 1000 \<and>
         (\<forall>v \<in> set (column df ''overall_rating''). \<exists>i. v = PInt i \<and> 1 \<le> i \<and> i \<le> 5) \<and>
         (\<forall>v \<in> set (column df ''age''). \<exists>i. v = PInt i \<and> 18 \<le> i \<and> i \<le> 80) \<and>
         (\<forall>v \<in> set (column df ''duration''). \<exists>i. v = PInt i \<and> 1 \<le> i \<and> i \<le> 365))"
  using bounded_random_columns[OF np_example_contract, of 0] np_example_contract by blast

subsection \<open>C7: two seeded runs\<close>

text \<open>
  C7: two runs of \<open>create_test_data\<close> build the same columns, whatever state NumPy's
  generator was in before each run: the function seeds it with 42 before the first
  draw, and seeding forgets the earlier state. Run in the same world with the same
  encoder, the two runs also return the same result and leave the same files.
\<close>

theorem seeded_runs_agree:
  assumes "numpy_contract np"
  shows "fst (test_columns np s1) = fst (test_columns np s2)
       \<and> DataFrame_dict (fst (test_columns np s1)) = DataFrame_dict (fst (test_columns np s2))
       \<and> create_test_data np enc s1 w = create_test_data np enc s2 w"
  using test_columns_seed[OF assms, of s1 s2] by (simp add: create_test_data_def)

theorem seeded_runs_agree_witness:
  "numpy_contract np_example
   \<and> fst (test_columns np_example 0) = fst (test_columns np_example 7)
   \<and> DataFrame_dict (fst (test_columns np_example 0))
       = DataFrame_dict (fst (test_columns np_example 7))"
  using seeded_runs_agree[OF np_example_contract, of 0 7] np_example_contract by blast

subsection \<open>C10: two runs of \<^verbatim>\<open>generate_data\<close> on different days\<close>

text \<open>
  C10 says that any two runs of \<open>generate_data\<close> with the same prefix and the same
  row count differ in the \<open>date\<close> column only. As stated this fails: whether a table
  is produced at all depends on the day. With 739924 rows the run of 2026-11-04
  (ordinal 739924) raises \<^verbatim>\<open>OverflowError\<close>, and the run of the next day returns a
  table of 739924 rows.
\<close>

theorem runs_on_two_days_counterexample:
  "generate_data 739924 ''sample'' 739924
     = Inl (Exc OverflowError ''date value out of range'')
   \<and> generate_data 739925 ''sample'' 739924
       = Inr (DataFrame_records (map (built_row ''sample'' 739925) [1..739924]))
   \<and> df_index (DataFrame_records (map (built_row ''sample'' 739925) [1..739924])) = 739924"
proof -
  have "generate_data 739924 ''sample'' 739924
          = Inl (Exc OverflowError ''date value out of range'')"
    by (rule generate_data_overflow) (simp_all add: date_max_def)
  moreover have "generate_data 739925 ''sample'' 739924
       = Inr (DataFrame_records (map (built_row ''sample'' 739925) [1..739924]))"
    by (rule generate_data_ok) (simp_all add: date_max_def)
  moreover have "df_index (DataFrame_records (map (built_row ''sample'' 739925) [1..739924]))
                   = 739924"
    by (simp add: index_built)
  ultimately show ?thesis by simp
qed

text \<open>
  C10 (amended): for any two days and any row count \<open>N\<close> below the ordinal of both,
  the two runs of \<open>generate_data\<close> with the same prefix and row count each return a
  table; the tables have the same index and the same columns, every column other than
  \<open>date\<close> has the same cells in both, and row \<open>i\<close> of the \<open>date\<close> column holds the day
  \<open>i\<close> days before the day of its run; so the two tables differ, when the days differ
  and there is a row, in the \<open>date\<close> column and only there.
\<close>

theorem runs_differ_in_date_only:
  assumes "N < today1" "today1 \<le> date_max" "N < today2" "today2 \<le> date_max"
  shows "\<exists>df1 df2.
           generate_data today1 p N = Inr df1 \<and> generate_data today2 p N = Inr df2
         \<and> df_index df1 = df_index df2 \<and> columns df1 = columns df2
         \<and> (\<forall>c. c \<noteq> ''date'' \<longrightarrow> column df1 c = column df2 c)
         \<and> (\<forall>i. 1 \<le> i \<and> i \<le> N \<longrightarrow>
              column df1 ''date'' ! nat (i - 1) = PDate (today1 - i) \<and>
              column df2 ''date'' ! nat (i - 1) = PDate (today2 - i))
         \<and> (today1 \<noteq> today2 \<and> 1 \<le> N \<longrightarrow> column df1 ''date'' \<noteq> column df2 ''date'')"
proof -
  obtain df1 where g1: "generate_data today1 p N = Inr df1"
    using generate_data_ok[OF assms(1,2)] by blast
  obtain df2 where g2: "generate_data today2 p N = Inr df2"
    using generate_data_ok[OF assms(3,4)] by blast
  show ?thesis
    using g1 g2 returned_tables_differ_in_date_only[OF g1 g2] by blast
qed

theorem runs_differ_in_date_only_witness:
  "(\<exists>df1 df2. generate_data 739924 ''sample'' 5 = Inr df1
      \<and> generate_data 739925 ''sample'' 5 = Inr df2
      \<and> column df1 ''value'' = column df2 ''value''
      \<and> column df1 ''date'' ! 0 = PDate 739923
      \<and> column df2 ''date'' ! 0 = PDate 739924
      \<and> column df1 ''date'' \<noteq> column df2 ''date'')"
proof -
  have "\<exists>df1 df2.
           generate_data 739924 ''sample'' 5 = Inr df1 \<and> generate_data 739925 ''sample'' 5 = Inr df2
         \<and> df_index df1 = df_index df2 \<and> columns df1 = columns df2
         \<and> (\<forall>c. c \<noteq> ''date'' \<longrightarrow> column df1 c = column df2 c)
         \<and> (\<forall>i. 1 \<le> i \<and> i \<le> 5 \<longrightarrow>
              column df1 ''date'' ! nat (i - 1) = PDate (739924 - i) \<and>
              column df2 ''date'' ! nat (i - 1) = PDate (739925 - i))
         \<and> ((739924::int) \<noteq> 739925 \<and> (1::int) \<le> 5 \<longrightarrow> column df1 ''date'' \<noteq> column df2 ''date'')"
    by (rule runs_differ_in_date_only) (simp_all add: date_max_def)
  then obtain df1 df2 where
    g: "generate_data 739924 ''sample'' 5 = Inr df1" "generate_data 739925 ''sample'' 5 = Inr df2"
    and v: "\<forall>c. c \<noteq> ''date'' \<longrightarrow> column df1 c = column df2 c"
    and dt: "\<forall>i. 1 \<le> i \<and> i \<le> 5 \<longrightarrow>
              column df1 ''date'' ! nat (i - 1) = PDate (739924 - i) \<and>
              column df2 ''date'' ! nat (i - 1) = PDate (739925 - i)"
    and ne: "column df1 ''date'' \<noteq> column df2 ''date''"
    by auto
  have "column df1 ''value'' = column df2 ''value''" using v by simp
  moreover have "column df1 ''date'' ! 0 = PDate 739923 \<and> column df2 ''date'' ! 0 = PDate 739924"
    using dt[rule_format, of 1] by simp
  ultimately show ?thesis using g ne by blast
qed

subsection \<open>C3: a failing export does not stop the others\<close>

text \<open>
  C3: once \<open>write_files\<close> has created the directory (\<open>w0\<close> is the world right after)
  and the stem has a name, it returns without an exception whatever the exports do.
  For each of the four formats the export is attempted; if it raises \<open>e\<close> (in
  particular whenever its encoder raises \<open>e\<close>), the line
  \<^verbatim>\<open>Error writing <label> to <path>: <e>\<close> is on the error stream; otherwise the line
  \<^verbatim>\<open>Written <label>: <path>\<close> is on the standard output and the file holds what the
  encoder produced. Whether an export fails is decided in \<open>w0\<close>: the exports before
  it, failed or not, do not change its outcome.
\<close>

theorem export_failures_are_isolated:
  assumes "Path_mkdir (parent pp) True True w = (None, w0)" and "name pp \<noteq> []"
  shows "\<exists>w'. write_files enc df pp w = (None, w') \<and>
           (\<forall>(f, label, ext) \<in> set formats.
              \<exists>p. with_suffix pp ext = Inr p \<and> Export f p \<in> set (trace w') \<and>
                (\<forall>e. enc f df = Inl e \<longrightarrow> fst (to_file enc f df p w0) = Some e) \<and>
                (case fst (to_file enc f df p w0) of
                   Some e \<Rightarrow>
                     (''Error writing '' @ label @ '' to '' @ path_str p @ '': '' @ str_exc e)
                       \<in> set (stderr w')
                 | None \<Rightarrow>
                     (''Written '' @ label @ '': '' @ path_str p) \<in> set (stdout w') \<and>
                     (\<exists>c. enc f df = Inr c \<and> files w' (resolve (cwd w) p) = Some (File c))))"
proof -
  obtain r v where wf: "write_files enc df pp w = (r, v)" by (cases "write_files enc df pp w")
  have r: "r = None" using write_files_keeps_dir(1)[OF assms wf] .
  have "\<exists>p. with_suffix pp ext = Inr p \<and> Export f p \<in> set (trace v) \<and>
                (\<forall>e. enc f df = Inl e \<longrightarrow> fst (to_file enc f df p w0) = Some e) \<and>
                (case fst (to_file enc f df p w0) of
                   Some e \<Rightarrow>
                     (''Error writing '' @ label @ '' to '' @ path_str p @ '': '' @ str_exc e)
                       \<in> set (stderr v)
                 | None \<Rightarrow>
                     (''Written '' @ label @ '': '' @ path_str p) \<in> set (stdout v) \<and>
                     (\<exists>c. enc f df = Inr c \<and> files v (resolve (cwd w) p) = Some (File c)))"
    if fm: "(f, label, ext) \<in> set formats" for f label ext
  proof -
    note k = write_files_format[OF assms fm wf]
    let ?p = "target pp ext"
    have "case fst (to_file enc f df ?p w0) of
            Some e \<Rightarrow>
              (''Error writing '' @ label @ '' to '' @ path_str ?p @ '': '' @ str_exc e)
                \<in> set (stderr v)
          | None \<Rightarrow>
              (''Written '' @ label @ '': '' @ path_str ?p) \<in> set (stdout v) \<and>
              (\<exists>c. enc f df = Inr c \<and> files v (resolve (cwd w) ?p) = Some (File c))"
    proof (cases "fst (to_file enc f df ?p w0)")
      case None
      then show ?thesis using k(5) by (simp add: out_line_def)
    next
      case (Some e)
      then show ?thesis using k(4)[of e] by (simp add: err_line_def)
    qed
    then show ?thesis using k(2) k(3) to_file_enc_fails[of enc f df] by blast
  qed
  then show ?thesis using wf r by blast
qed

theorem export_failures_are_isolated_witness:
  "\<exists>w'. write_files enc_example \<lparr>df_index = 0, df_cols = []\<rparr> (Rel [''sample'']) world_example
           = (None, w')
      \<and> ''Error writing Parquet to sample.parquet: Unable to find a usable engine''
           \<in> set (stderr w')
      \<and> ''Written Excel: sample.xlsx'' \<in> set (stdout w')
      \<and> files w' [''work'', ''sample.xlsx''] = Some (File ''data'')"
proof -
  let ?w0 = "world_example\<lparr>trace := trace world_example @ [Mkdir (Rel [])]\<rparr>"
  let ?df = "\<lparr>df_index = 0, df_cols = []\<rparr>"
  have mk: "Path_mkdir (parent (Rel [''sample''])) True True world_example = (None, ?w0)"
    by (simp add: Path_mkdir_existing world_example_def node_at_def)
  have nm: "name (Rel [''sample'']) \<noteq> []" by (simp add: name_def)
  from export_failures_are_isolated[OF mk nm, of enc_example ?df] obtain w' where
    wf: "write_files enc_example ?df (Rel [''sample'']) world_example = (None, w')" and
    al: "\<forall>(f, label, ext) \<in> set formats.
              \<exists>p. with_suffix (Rel [''sample'']) ext = Inr p \<and> Export f p \<in> set (trace w') \<and>
                (\<forall>e. enc_example f ?df = Inl e \<longrightarrow> fst (to_file enc_example f ?df p ?w0) = Some e) \<and>
                (case fst (to_file enc_example f ?df p ?w0) of
                   Some e \<Rightarrow>
                     (''Error writing '' @ label @ '' to '' @ path_str p @ '': '' @ str_exc e)
                       \<in> set (stderr w')
                 | None \<Rightarrow>
                     (''Written '' @ label @ '': '' @ path_str p) \<in> set (stdout w') \<and>
                     (\<exists>c. enc_example f ?df = Inr c
                         \<and> files w' (resolve (cwd world_example) p) = Some (File c)))"
    by blast
  have pq: "with_suffix (Rel [''sample'']) ''.parquet'' = Inr (Rel [''sample.parquet''])"
    and xl: "with_suffix (Rel [''sample'']) ''.xlsx'' = Inr (Rel [''sample.xlsx''])"
    by (simp_all add: with_suffix_def name_def suffix_def)
  have f1: "fst (to_file enc_example Parquet ?df (Rel [''sample.parquet'']) ?w0)
              = Some (Exc OtherException ''Unable to find a usable engine'')"
    by (simp add: to_file_def enc_example_def)
  have f2: "fst (to_file enc_example Excel ?df (Rel [''sample.xlsx'']) ?w0) = None"
    by (simp add: to_file_def enc_example_def open_write_def world_example_def node_at_def)
  have "(Parquet, ''Parquet'', ''.parquet'') \<in> set formats" by (simp add: formats_def)
  with al pq f1 have e1: "''Error writing Parquet to sample.parquet: Unable to find a usable engine''
           \<in> set (stderr w')"
    by fastforce
  have "(Excel, ''Excel'', ''.xlsx'') \<in> set formats" by (simp add: formats_def)
  with al xl f2 have e2: "''Written Excel: sample.xlsx'' \<in> set (stdout w')
      \<and> files w' [''work'', ''sample.xlsx''] = Some (File ''data'')"
    by (fastforce simp: enc_example_def world_example_def)
  show ?thesis using wf e1 e2 by blast
qed

subsection \<open>C8: four attempts, once each, in order\<close>

text \<open>
  C8: once the directory is created and the stem has a name, \<open>write_files\<close> makes
  exactly four export attempts after the \<^verbatim>\<open>mkdir\<close>, in the order CSV, JSON, Parquet,
  Excel, each at the stem with its own suffix, and then returns normally, whatever the
  encoder does for each format.
\<close>

theorem exports_once_in_order:
  assumes "Path_mkdir (parent pp) True True w = (None, w0)" and "name pp \<noteq> []"
  shows "\<exists>csv_path json_path parquet_path xlsx_path w'.
           with_suffix pp ''.csv'' = Inr csv_path \<and>
           with_suffix pp ''.json'' = Inr json_path \<and>
           with_suffix pp ''.parquet'' = Inr parquet_path \<and>
           with_suffix pp ''.xlsx'' = Inr xlsx_path \<and>
           write_files enc df pp w = (None, w') \<and>
           trace w' = trace w @ [Mkdir (parent pp), Export CSV csv_path, Export JSON json_path,
                                 Export Parquet parquet_path, Export Excel xlsx_path]"
proof -
  from write_files_effect[OF assms, of enc df] obtain v where
    "write_files enc df pp w = (None, v)"
    "trace v = trace w @ Mkdir (parent pp) # map (\<lambda>(f, label, p). Export f p) (export_steps pp)"
    by blast
  then show ?thesis
    using with_suffix_target[OF assms(2)] by (simp add: export_steps_def)
qed

theorem exports_once_in_order_witness:
  "\<exists>w'. write_files enc_example \<lparr>df_index = 0, df_cols = []\<rparr> (Rel [''sample'']) world_example
           = (None, w')
      \<and> trace w' = [Mkdir (Rel []), Export CSV (Rel [''sample.csv'']),
                     Export JSON (Rel [''sample.json'']),
                     Export Parquet (Rel [''sample.parquet'']),
                     Export Excel (Rel [''sample.xlsx''])]"
proof -
  let ?w0 = "world_example\<lparr>trace := trace world_example @ [Mkdir (Rel [])]\<rparr>"
  have mk: "Path_mkdir (parent (Rel [''sample''])) True True world_example = (None, ?w0)"
    by (simp add: Path_mkdir_existing world_example_def node_at_def)
  have nm: "name (Rel [''sample'']) \<noteq> []" by (simp add: name_def)
  have "with_suffix (Rel [''sample'']) ''.csv'' = Inr (Rel [''sample.csv''])"
    "with_suffix (Rel [''sample'']) ''.json'' = Inr (Rel [''sample.json''])"
    "with_suffix (Rel [''sample'']) ''.parquet'' = Inr (Rel [''sample.parquet''])"
    "with_suffix (Rel [''sample'']) ''.xlsx'' = Inr (Rel [''sample.xlsx''])"
    by (simp_all add: with_suffix_def name_def suffix_def)
  then show ?thesis
    using exports_once_in_order[OF mk nm, of enc_example "\<lparr>df_index = 0, df_cols = []\<rparr>"]
    by (auto simp: world_example_def)
qed


subsection \<open>C6: the directory is created first\<close>

text \<open>
  C6: in a file system that is a tree, with an existing working directory and no
  regular file at the destination directory or at one of its parents, \<open>write_files\<close>
  first creates the destination directory (the parent of the stem) with every missing
  parent: in the world \<open>w0\<close> right after the \<^verbatim>\<open>mkdir\<close>, before the first export, the
  directory and all its parents are directories, and the four exports follow the
  \<^verbatim>\<open>mkdir\<close> in the log. When the directory did not exist, every export whose encoder
  produces content succeeds: its file is written and reported.
\<close>

theorem directory_created_before_exports:
  assumes "tree (files w)" and "node_at (files w) (cwd w) = Some Dir"
    and "\<forall>k b. node_at (files w) (resolve (cwd w) ((parent ^^ k) (parent pp))) \<noteq> Some (File b)"
    and "name pp \<noteq> []"
  shows "\<exists>w0 w'. Path_mkdir (parent pp) True True w = (None, w0) \<and>
           trace w0 = trace w @ [Mkdir (parent pp)] \<and>
           (\<forall>k. node_at (files w0) (resolve (cwd w) ((parent ^^ k) (parent pp))) = Some Dir) \<and>
           write_files enc df pp w = (None, w') \<and>
           (\<exists>csv_path json_path parquet_path xlsx_path.
              trace w' = trace w0 @ [Export CSV csv_path, Export JSON json_path,
                                     Export Parquet parquet_path, Export Excel xlsx_path]) \<and>
           (\<forall>k. node_at (files w') (resolve (cwd w) ((parent ^^ k) (parent pp))) = Some Dir) \<and>
           (node_at (files w) (resolve (cwd w) (parent pp)) = None \<longrightarrow>
              (\<forall>(f, label, ext) \<in> set formats. \<forall>c. enc f df = Inr c \<longrightarrow>
                 (\<exists>p. with_suffix pp ext = Inr p \<and>
                      files w' (resolve (cwd w) p) = Some (File c) \<and>
                      (''Written '' @ label @ '': '' @ path_str p) \<in> set (stdout w'))))"
proof -
  let ?d = "resolve (cwd w) (parent pp)"
  from Path_mkdir_parents[OF assms(1,2,3)] obtain w0 where
    mk: "Path_mkdir (parent pp) True True w = (None, w0)" and
    t0: "trace w0 = trace w @ [Mkdir (parent pp)]" and
    c0: "cwd w0 = cwd w" and
    d0: "\<forall>k. node_at (files w0) (resolve (cwd w) ((parent ^^ k) (parent pp))) = Some Dir" and
    f0: "\<forall>q. (\<forall>k. q \<noteq> resolve (cwd w) ((parent ^^ k) (parent pp))) \<longrightarrow> files w0 q = files w q"
    by blast
  from write_files_effect[OF mk assms(4), of enc df] obtain v where
    wf: "write_files enc df pp w = (None, v)" and
    tr: "trace v = trace w @ Mkdir (parent pp) # map (\<lambda>(f, label, p). Export f p) (export_steps pp)"
    by blast
  have v: "v = run_exports enc df (export_steps pp) w0"
    using wf write_files_run[OF mk assms(4), of enc df] by simp
  have t1: "\<exists>csv_path json_path parquet_path xlsx_path.
              trace v = trace w0 @ [Export CSV csv_path, Export JSON json_path,
                                    Export Parquet parquet_path, Export Excel xlsx_path]"
    unfolding tr t0 by (simp add: export_steps_def)
  have d1: "\<forall>k. node_at (files v) (resolve (cwd w) ((parent ^^ k) (parent pp))) = Some Dir"
    unfolding v using d0 run_exports_dirs by blast
  have succ: "\<exists>p. with_suffix pp ext = Inr p \<and>
                 files v (resolve (cwd w) p) = Some (File c) \<and>
                 (''Written '' @ label @ '': '' @ path_str p) \<in> set (stdout v)"
    if ab: "node_at (files w) ?d = None" and fm: "(f, label, ext) \<in> set formats"
      and en: "enc f df = Inr c" for f label ext c
  proof -
    let ?p = "target pp ext"
    let ?r = "resolve (cwd w) ?p"
    have r: "?r = ?d @ [stem pp @ ext]" using assms(4) by (rule resolve_target)
    have "files w ?r = None" unfolding r using assms(1) ab by (rule absent_children)
    moreover have "\<forall>k. ?r \<noteq> resolve (cwd w) ((parent ^^ k) (parent pp))"
    proof
      fix k
      have "length (resolve (cwd w) ((parent ^^ k) (parent pp))) \<le> length ?d"
        by (rule resolve_ancestor_length)
      then have "length (resolve (cwd w) ((parent ^^ k) (parent pp))) < length ?r"
        unfolding r by simp
      then show "?r \<noteq> resolve (cwd w) ((parent ^^ k) (parent pp))"
        by (metis less_irrefl)
    qed
    ultimately have "files w0 ?r = None" using f0 by simp
    then have n1: "node_at (files w0) (resolve (cwd w0) ?p) \<noteq> Some Dir"
      unfolding c0 r by (simp add: node_at_def)
    have "node_at (files w0) ?d = Some Dir" using d0 by (metis funpow_0)
    then have n2: "node_at (files w0) (butlast (resolve (cwd w0) ?p)) = Some Dir"
      unfolding c0 r by simp
    have ok: "fst (to_file enc f df ?p w0) = None"
      using en n1 n2 by (rule to_file_succeeds)
    note k = write_files_format[OF mk assms(4) fm wf]
    from k(5)[OF ok] en k(2) show ?thesis by (auto simp: out_line_def)
  qed
  show ?thesis
    using mk t0 d0 wf t1 d1 succ by blast
qed

theorem directory_created_before_exports_witness:
  "\<exists>w0 w'. Path_mkdir (Abs [''tmp'', ''fixtures'']) True True world_example = (None, w0) \<and>
      node_at (files world_example) [''tmp''] = None \<and>
      node_at (files w0) [''tmp''] = Some Dir \<and>
      node_at (files w0) [''tmp'', ''fixtures''] = Some Dir \<and>
      write_files enc_ok \<lparr>df_index = 0, df_cols = []\<rparr> (Abs [''tmp'', ''fixtures'', ''sample''])
        world_example = (None, w') \<and>
      files w' [''tmp'', ''fixtures'', ''sample.csv''] = Some (File ''data'')"
proof -
  let ?pp = "Abs [''tmp'', ''fixtures'', ''sample'']"
  let ?df = "\<lparr>df_index = 0, df_cols = []\<rparr>"
  have nm: "name ?pp \<noteq> []" by (simp add: name_def)
  have "\<exists>w0 w'. Path_mkdir (parent ?pp) True True world_example = (None, w0) \<and>
      (\<forall>k. node_at (files w0) (resolve (cwd world_example) ((parent ^^ k) (parent ?pp))) = Some Dir) \<and>
      write_files enc_ok ?df ?pp world_example = (None, w') \<and>
      (node_at (files world_example) (resolve (cwd world_example) (parent ?pp)) = None \<longrightarrow>
              (\<forall>(f, label, ext) \<in> set formats. \<forall>c. enc_ok f ?df = Inr c \<longrightarrow>
                 (\<exists>p. with_suffix ?pp ext = Inr p \<and>
                      files w' (resolve (cwd world_example) p) = Some (File c) \<and>
                      (''Written '' @ label @ '': '' @ path_str p) \<in> set (stdout w'))))"
    using directory_created_before_exports[of world_example ?pp enc_ok ?df]
      world_example_tree(1,2) world_example_tree(3)[of "parent ?pp"] nm
    by (elim meta_impE exE conjE) (assumption | rule exI conjI)+
  then obtain w0 w' where
    mk: "Path_mkdir (parent ?pp) True True world_example = (None, w0)" and
    d0: "\<forall>k. node_at (files w0) (resolve (cwd world_example) ((parent ^^ k) (parent ?pp))) = Some Dir" and
    wf: "write_files enc_ok ?df ?pp world_example = (None, w')" and
    su: "node_at (files world_example) (resolve (cwd world_example) (parent ?pp)) = None \<longrightarrow>
              (\<forall>(f, label, ext) \<in> set formats. \<forall>c. enc_ok f ?df = Inr c \<longrightarrow>
                 (\<exists>p. with_suffix ?pp ext = Inr p \<and>
                      files w' (resolve (cwd world_example) p) = Some (File c) \<and>
                      (''Written '' @ label @ '': '' @ path_str p) \<in> set (stdout w')))"
    by (elim exE conjE)
  have a0: "node_at (files w0) [''tmp'', ''fixtures''] = Some Dir" using d0[rule_format, of 0] by simp
  have a1: "node_at (files w0) [''tmp''] = Some Dir" using d0[rule_format, of 1] by simp
  have ab: "node_at (files world_example) [''tmp''] = None"
    "node_at (files world_example) (resolve (cwd world_example) (parent ?pp)) = None"
    by (simp_all add: world_example_def node_at_def)
  have cs: "with_suffix ?pp ''.csv'' = Inr (Abs [''tmp'', ''fixtures'', ''sample.csv''])"
    by (simp add: with_suffix_def name_def suffix_def)
  have "(CSV, ''CSV'', ''.csv'') \<in> set formats" by (simp add: formats_def)
  with su ab(2) cs have "files w' [''tmp'', ''fixtures'', ''sample.csv''] = Some (File ''data'')"
    by (fastforce simp: enc_ok_def)
  then show ?thesis using mk a0 a1 ab(1) wf by auto
qed


subsection \<open>C5: the exit status\<close>

text \<open>
  C5 says that every run of the script exits with status zero, also when exports
  fail. As stated this fails: an exception of \<open>generate_data\<close> (or of the \<^verbatim>\<open>mkdir\<close>)
  is not caught and ends the run with status 1. With \<^verbatim>\<open>--sample2-rows 800000\<close> on
  2026-11-04 the first dataset is exported, its Parquet export fails and leaves its
  line on the error stream, and then the generation of the second dataset raises
  \<^verbatim>\<open>OverflowError\<close>: the run exits with status 1.
\<close>

theorem exit_status_counterexample:
  "exit_status (main enc_example
      \<lparr>base_dir = Abs [''tmp'', ''fixtures''], sample_rows = 5, sample2_rows = 800000\<rparr>
      world_example) = 1
   \<and> ''Error writing Parquet to /tmp/fixtures/sample.parquet: Unable to find a usable engine''
        \<in> set (stderr (snd (main enc_example
              \<lparr>base_dir = Abs [''tmp'', ''fixtures''], sample_rows = 5, sample2_rows = 800000\<rparr>
              world_example)))"
proof -
  let ?a = "\<lparr>base_dir = Abs [''tmp'', ''fixtures''], sample_rows = 5, sample2_rows = 800000\<rparr>"
  let ?b = "Abs [''tmp'', ''fixtures'']"
  let ?p1 = "joinpath ?b ''sample''"
  let ?e = "Exc OverflowError ''date value out of range''"
  obtain df1 where g1: "generate_data 739924 ''sample'' 5 = Inr df1"
    using generate_data_ok[of 5 739924 "''sample''"] by (auto simp: date_max_def)
  have g2: "generate_data 739924 ''sample2'' 800000 = Inl ?e"
    by (rule generate_data_overflow) (simp_all add: date_max_def)
  obtain w0 where mk: "Path_mkdir ?b True True world_example = (None, w0)"
    using Path_mkdir_parents[OF world_example_tree(1,2) world_example_tree(3)] by blast
  have mk1: "Path_mkdir (parent ?p1) True True world_example = (None, w0)"
    using mk by simp
  have n1: "name ?p1 \<noteq> []" by (simp add: name_def)
  obtain v1 where wf1: "write_files enc_example df1 ?p1 world_example = (None, v1)"
    using write_files_run[OF mk1 n1] by blast
  have c1: "clock v1 = 739924"
    using write_files_keeps_dir(3)[OF mk1 n1 wf1] by (simp add: world_example_def)
  have fm: "(Parquet, ''Parquet'', ''.parquet'') \<in> set formats" by (simp add: formats_def)
  have "enc_example Parquet df1 = Inl (Exc OtherException ''Unable to find a usable engine'')"
    by (simp add: enc_example_def)
  then have "err_line ''Parquet'' (target ?p1 ''.parquet'')
               (Exc OtherException ''Unable to find a usable engine'') \<in> set (stderr v1)"
    by (rule write_files_format(6)[OF mk1 n1 fm wf1])
  moreover have tg: "target (Abs [''tmp'', ''fixtures'', ''sample'']) ''.parquet''
                       = Abs [''tmp'', ''fixtures'', ''sample.parquet'']"
    using target_sample(1)[of ?b "''.parquet''"] by simp
  ultimately have line: "''Error writing Parquet to /tmp/fixtures/sample.parquet: Unable to find a usable engine''
                     \<in> set (stderr v1)"
    by (simp add: err_line_def tg)
  have g1': "generate_data (clock world_example) ''sample'' 5 = Inr df1"
    using g1 by (simp add: world_example_def)
  have wf1': "write_files enc_example df1 (Abs [''tmp'', ''fixtures'', ''sample'']) world_example
                = (None, v1)"
    using wf1 by simp
  have "main enc_example ?a world_example = (Some ?e, v1)"
    by (simp add: main_def Let_def g1' wf1' c1 g2)
  then show ?thesis using line by (simp add: exit_status_def)
qed

text \<open>
  C5 (amended): the exit status of the script does not depend on what the exports
  do: it is the same for any two encoders, so a failing export never turns it
  non-zero. When both tables can be generated (both row counts are below today's
  ordinal) and the base directory can be created, the status is zero whatever the
  encoder does, and every exception an encoder raises shows up as an
  \<^verbatim>\<open>Error writing ...\<close> line on the error stream.
\<close>

theorem export_failures_keep_exit_status:
  "(\<forall>enc'. exit_status (main enc a w) = exit_status (main enc' a w))
   \<and> (sample_rows a < clock w \<and> sample2_rows a < clock w \<and> clock w \<le> date_max
        \<and> fst (Path_mkdir (base_dir a) True True w) = None \<longrightarrow>
      exit_status (main enc a w) = 0 \<and>
      (\<exists>df1 df2.
         generate_data (clock w) ''sample'' (sample_rows a) = Inr df1 \<and>
         generate_data (clock w) ''sample2'' (sample2_rows a) = Inr df2 \<and>
         (\<forall>(f, label, ext) \<in> set formats.
            (\<forall>e. enc f df1 = Inl e \<longrightarrow>
               (''Error writing '' @ label @ '' to ''
                  @ path_str (joinpath (base_dir a) (''sample'' @ ext)) @ '': '' @ str_exc e)
                 \<in> set (stderr (snd (main enc a w)))) \<and>
            (\<forall>e. enc f df2 = Inl e \<longrightarrow>
               (''Error writing '' @ label @ '' to ''
                  @ path_str (joinpath (base_dir a) (''sample2'' @ ext)) @ '': '' @ str_exc e)
                 \<in> set (stderr (snd (main enc a w)))))))"
proof (intro conjI allI impI)
  fix enc'
  have "exit_status (main enc a w) = 0 \<longleftrightarrow> exit_status (main enc' a w) = 0"
    unfolding main_exit_iff ..
  moreover have "\<And>r. exit_status r = 0 \<or> exit_status r = 1"
    by (simp add: exit_status_def split: option.splits)
  ultimately show "exit_status (main enc a w) = exit_status (main enc' a w)"
    by metis
next
  assume h: "sample_rows a < clock w \<and> sample2_rows a < clock w \<and> clock w \<le> date_max
        \<and> fst (Path_mkdir (base_dir a) True True w) = None"
  let ?b = "base_dir a"
  let ?p1 = "joinpath ?b ''sample''" and ?p2 = "joinpath ?b ''sample2''"
  obtain df1 where g1: "generate_data (clock w) ''sample'' (sample_rows a) = Inr df1"
    using generate_data_ok[of "sample_rows a" "clock w"] h by blast
  obtain df2 where g2: "generate_data (clock w) ''sample2'' (sample2_rows a) = Inr df2"
    using generate_data_ok[of "sample2_rows a" "clock w"] h by blast
  obtain w0 where mk: "Path_mkdir ?b True True w = (None, w0)"
    using h by (cases "Path_mkdir ?b True True w") auto
  from main_run[OF g1 g2 mk, of enc] obtain v1 v2 where
    wf1: "write_files enc df1 ?p1 w = (None, v1)" and
    mk2: "Path_mkdir ?b True True v1 = (None, v1\<lparr>trace := trace v1 @ [Mkdir ?b]\<rparr>)" and
    wf2: "write_files enc df2 ?p2 v1 = (None, v2)" and
    mn: "main enc a w = (None, v2)"
    by blast
  show "exit_status (main enc a w) = 0" using mn by (simp add: exit_status_def)
  have mk1: "Path_mkdir (parent ?p1) True True w = (None, w0)"
    using mk by (simp add: parent_joinpath)
  have mk2': "Path_mkdir (parent ?p2) True True v1 = (None, v1\<lparr>trace := trace v1 @ [Mkdir ?b]\<rparr>)"
    using mk2 by (simp add: parent_joinpath)
  have n1: "name ?p1 \<noteq> []" and n2: "name ?p2 \<noteq> []" by (simp_all add: name_joinpath)
  have grow: "set (stderr v1) \<subseteq> set (stderr v2)"
    using write_files_stderr_grows[OF mk2' n2 wf2] by simp
  have "(\<forall>e. enc f df1 = Inl e \<longrightarrow>
               (''Error writing '' @ label @ '' to ''
                  @ path_str (joinpath ?b (''sample'' @ ext)) @ '': '' @ str_exc e)
                 \<in> set (stderr v2)) \<and>
        (\<forall>e. enc f df2 = Inl e \<longrightarrow>
               (''Error writing '' @ label @ '' to ''
                  @ path_str (joinpath ?b (''sample2'' @ ext)) @ '': '' @ str_exc e)
                 \<in> set (stderr v2))"
    if fm: "(f, label, ext) \<in> set formats" for f label ext
  proof (intro conjI allI impI)
    fix e assume "enc f df1 = Inl e"
    then have "err_line label (target ?p1 ext) e \<in> set (stderr v1)"
      by (rule write_files_format(6)[OF mk1 n1 fm wf1])
    then show "(''Error writing '' @ label @ '' to ''
                  @ path_str (joinpath ?b (''sample'' @ ext)) @ '': '' @ str_exc e)
                 \<in> set (stderr v2)"
      using grow by (auto simp: err_line_def target_sample)
  next
    fix e assume "enc f df2 = Inl e"
    then have "err_line label (target ?p2 ext) e \<in> set (stderr v2)"
      by (rule write_files_format(6)[OF mk2' n2 fm wf2])
    then show "(''Error writing '' @ label @ '' to ''
                  @ path_str (joinpath ?b (''sample2'' @ ext)) @ '': '' @ str_exc e)
                 \<in> set (stderr v2)"
      by (auto simp: err_line_def target_sample)
  qed
  then show "\<exists>df1 df2.
         generate_data (clock w) ''sample'' (sample_rows a) = Inr df1 \<and>
         generate_data (clock w) ''sample2'' (sample2_rows a) = Inr df2 \<and>
         (\<forall>(f, label, ext) \<in> set formats.
            (\<forall>e. enc f df1 = Inl e \<longrightarrow>
               (''Error writing '' @ label @ '' to ''
                  @ path_str (joinpath (base_dir a) (''sample'' @ ext)) @ '': '' @ str_exc e)
                 \<in> set (stderr (snd (main enc a w)))) \<and>
            (\<forall>e. enc f df2 = Inl e \<longrightarrow>
               (''Error writing '' @ label @ '' to ''
                  @ path_str (joinpath (base_dir a) (''sample2'' @ ext)) @ '': '' @ str_exc e)
                 \<in> set (stderr (snd (main enc a w)))))"
    using g1 g2 mn by auto
qed

theorem export_failures_keep_exit_status_witness:
  "exit_status (main enc_example args_example world_example) = 0
   \<and> exit_status (main enc_ok args_example world_example) = 0
   \<and> ''Error writing Parquet to /tmp/fixtures/sample.parquet: Unable to find a usable engine''
        \<in> set (stderr (snd (main enc_example args_example world_example)))
   \<and> ''Error writing Parquet to /tmp/fixtures/sample2.parquet: Unable to find a usable engine''
        \<in> set (stderr (snd (main enc_example args_example world_example)))"
proof -
  note t = export_failures_keep_exit_status[of enc_example args_example world_example]
  have h: "sample_rows args_example < clock world_example
      \<and> sample2_rows args_example < clock world_example \<and> clock world_example \<le> date_max"
    by (simp add: args_example_def world_example_def date_max_def)
  have "\<exists>w0. Path_mkdir (base_dir args_example) True True world_example = (None, w0)"
    using Path_mkdir_parents[OF world_example_tree(1,2) world_example_tree(3)] by blast
  then have m: "fst (Path_mkdir (base_dir args_example) True True world_example) = None"
    by auto
  from t h m have z: "exit_status (main enc_example args_example world_example) = 0"
    and same: "exit_status (main enc_example args_example world_example)
                 = exit_status (main enc_ok args_example world_example)"
    by blast+
  from t h m obtain df1 df2 where
    al: "\<forall>(f, label, ext) \<in> set formats.
            (\<forall>e. enc_example f df1 = Inl e \<longrightarrow>
               (''Error writing '' @ label @ '' to ''
                  @ path_str (joinpath (base_dir args_example) (''sample'' @ ext)) @ '': '' @ str_exc e)
                 \<in> set (stderr (snd (main enc_example args_example world_example)))) \<and>
            (\<forall>e. enc_example f df2 = Inl e \<longrightarrow>
               (''Error writing '' @ label @ '' to ''
                  @ path_str (joinpath (base_dir args_example) (''sample2'' @ ext)) @ '': '' @ str_exc e)
                 \<in> set (stderr (snd (main enc_example args_example world_example))))"
    by blast
  have "(Parquet, ''Parquet'', ''.parquet'') \<in> set formats" by (simp add: formats_def)
  with al have
    "''Error writing Parquet to /tmp/fixtures/sample.parquet: Unable to find a usable engine''
        \<in> set (stderr (snd (main enc_example args_example world_example)))"
    "''Error writing Parquet to /tmp/fixtures/sample2.parquet: Unable to find a usable engine''
        \<in> set (stderr (snd (main enc_example args_example world_example)))"
    by (fastforce simp: enc_example_def args_example_def)+
  then show ?thesis using z same by simp
qed

subsection \<open>C9: the files each script writes\<close>

text \<open>
  C9 says that each dataset of either script comes out as four sibling files. As
  stated this fails for \<^verbatim>\<open>create_test_data.py\<close>: it calls \<^verbatim>\<open>to_parquet\<close> and nothing
  else, so its dataset is the single file \<^verbatim>\<open>test_data/test_reviews.parquet\<close>. Run in a
  world with an empty working directory and an encoder that never fails, it writes
  that file and no \<^verbatim>\<open>.csv\<close>, \<^verbatim>\<open>.json\<close> or \<^verbatim>\<open>.xlsx\<close> beside it.
\<close>

theorem create_test_data_single_file_counterexample:
  "fst (create_test_data np_example enc_ok 0 world_example)
     = Inr (Rel [''test_data'', ''test_reviews.parquet''])
   \<and> files (snd (snd (create_test_data np_example enc_ok 0 world_example)))
        [''work'', ''test_data'', ''test_reviews.parquet''] = Some (File ''data'')
   \<and> files (snd (snd (create_test_data np_example enc_ok 0 world_example)))
        [''work'', ''test_data'', ''test_reviews.csv''] = None
   \<and> files (snd (snd (create_test_data np_example enc_ok 0 world_example)))
        [''work'', ''test_data'', ''test_reviews.json''] = None
   \<and> files (snd (snd (create_test_data np_example enc_ok 0 world_example)))
        [''work'', ''test_data'', ''test_reviews.xlsx''] = None
   \<and> trace (snd (snd (create_test_data np_example enc_ok 0 world_example)))
       = [Mkdir (Rel [''test_data'']),
          Export Parquet (Rel [''test_data'', ''test_reviews.parquet''])]"
proof -
  let ?w1 = "world_example\<lparr>trace := [Mkdir (Rel [''test_data''])],
                files := (files world_example)([''work'', ''test_data''] \<mapsto> Dir)\<rparr>"
  let ?df = "\<lparr>df_index = n_rows, df_cols = fst (test_columns np_example 0)\<rparr>"
  let ?out = "Rel [''test_data'', ''test_reviews.parquet'']"
  let ?w2 = "?w1\<lparr>trace := trace ?w1 @ [Export Parquet ?out],
                 files := (files ?w1)([''work'', ''test_data'', ''test_reviews.parquet'']
                                       \<mapsto> File ''data'')\<rparr>"
  have m: "Path_mkdir (Rel [''test_data'']) False True world_example = (None, ?w1)"
    by (simp add: Path_mkdir_def mkdir.simps os_mkdir_def node_at_def world_example_def)
  have t: "to_file enc_ok Parquet ?df ?out ?w1 = (None, ?w2)"
    by (simp add: to_file_def enc_ok_def open_write_def node_at_def world_example_def)
  from create_test_data_ok[OF np_example_contract m t] obtain w' where
    c: "create_test_data np_example enc_ok 0 world_example
          = (Inr ?out, snd (test_columns np_example 0), w')" and
    f: "files w' = files ?w2" "trace w' = trace ?w2"
    by blast
  show ?thesis
    unfolding c by (simp add: f world_example_def)
qed

text \<open>
  C9 (amended): a run of \<^verbatim>\<open>create_test_samples.py\<close> that completes attempts, for each
  of its two datasets \<^verbatim>\<open>sample\<close> and \<^verbatim>\<open>sample2\<close>, exactly four exports, at the sibling
  paths \<^verbatim>\<open>base_dir/<dataset>.csv\<close>, \<^verbatim>\<open>.json\<close>, \<^verbatim>\<open>.parquet\<close> and \<^verbatim>\<open>.xlsx\<close>, and changes the
  file system nowhere but at these eight paths and at the base directory and its
  parents. A run of \<^verbatim>\<open>create_test_data.py\<close> that completes makes one export, to
  \<^verbatim>\<open>test_data/test_reviews.parquet\<close>, writes that file, and changes the file system
  nowhere but there and at \<^verbatim>\<open>test_data\<close>.
\<close>

theorem output_files:
  "(main enc a w = (None, v) \<longrightarrow>
      trace v = trace w @
        [Mkdir (base_dir a),
         Export CSV (joinpath (base_dir a) ''sample.csv''),
         Export JSON (joinpath (base_dir a) ''sample.json''),
         Export Parquet (joinpath (base_dir a) ''sample.parquet''),
         Export Excel (joinpath (base_dir a) ''sample.xlsx''),
         Mkdir (base_dir a),
         Export CSV (joinpath (base_dir a) ''sample2.csv''),
         Export JSON (joinpath (base_dir a) ''sample2.json''),
         Export Parquet (joinpath (base_dir a) ''sample2.parquet''),
         Export Excel (joinpath (base_dir a) ''sample2.xlsx'')] \<and>
      (\<forall>q. files v q \<noteq> files w q \<longrightarrow>
         (\<exists>k. q = resolve (cwd w) ((parent ^^ k) (base_dir a))) \<or>
         q \<in> set (map (\<lambda>n. resolve (cwd w) (joinpath (base_dir a) n))
                    [''sample.csv'', ''sample.json'', ''sample.parquet'', ''sample.xlsx'',
                     ''sample2.csv'', ''sample2.json'', ''sample2.parquet'',
                     ''sample2.xlsx''])))
   \<and> (create_test_data np enc s w = (Inr out, s', v') \<longrightarrow>
      out = Rel [''test_data'', ''test_reviews.parquet''] \<and>
      trace v' = trace w @ [Mkdir (Rel [''test_data'']),
                            Export Parquet (Rel [''test_data'', ''test_reviews.parquet''])] \<and>
      (\<exists>c. files v' (cwd w @ [''test_data'', ''test_reviews.parquet'']) = Some (File c)) \<and>
      (\<forall>q. files v' q \<noteq> files w q \<longrightarrow>
         q = cwd w @ [''test_data''] \<or> q = cwd w @ [''test_data'', ''test_reviews.parquet'']))"
proof (intro conjI impI)
  assume m: "main enc a w = (None, v)"
  show "trace v = trace w @
        [Mkdir (base_dir a),
         Export CSV (joinpath (base_dir a) ''sample.csv''),
         Export JSON (joinpath (base_dir a) ''sample.json''),
         Export Parquet (joinpath (base_dir a) ''sample.parquet''),
         Export Excel (joinpath (base_dir a) ''sample.xlsx''),
         Mkdir (base_dir a),
         Export CSV (joinpath (base_dir a) ''sample2.csv''),
         Export JSON (joinpath (base_dir a) ''sample2.json''),
         Export Parquet (joinpath (base_dir a) ''sample2.parquet''),
         Export Excel (joinpath (base_dir a) ''sample2.xlsx'')]"
    using m by (rule main_effect(1))
  show "\<forall>q. files v q \<noteq> files w q \<longrightarrow>
         (\<exists>k. q = resolve (cwd w) ((parent ^^ k) (base_dir a))) \<or>
         q \<in> set (map (\<lambda>n. resolve (cwd w) (joinpath (base_dir a) n))
                    [''sample.csv'', ''sample.json'', ''sample.parquet'', ''sample.xlsx'',
                     ''sample2.csv'', ''sample2.json'', ''sample2.parquet'',
                     ''sample2.xlsx''])"
    using main_effect(2)[OF m] by blast
next
  assume c: "create_test_data np enc s w = (Inr out, s', v')"
  note k = create_test_data_frame[OF c]
  show "out = Rel [''test_data'', ''test_reviews.parquet'']" using k by simp
  show "trace v' = trace w @ [Mkdir (Rel [''test_data'']),
                            Export Parquet (Rel [''test_data'', ''test_reviews.parquet''])]"
    using k by simp
  show "\<exists>c. files v' (cwd w @ [''test_data'', ''test_reviews.parquet'']) = Some (File c)"
    using k by simp
  show "\<forall>q. files v' q \<noteq> files w q \<longrightarrow>
         q = cwd w @ [''test_data''] \<or> q = cwd w @ [''test_data'', ''test_reviews.parquet'']"
    using k by blast
qed


theorem output_files_witness:
  "(\<exists>v. main enc_example args_example world_example = (None, v) \<and>
      trace v =
        [Mkdir (Abs [''tmp'', ''fixtures'']),
         Export CSV (Abs [''tmp'', ''fixtures'', ''sample.csv'']),
         Export JSON (Abs [''tmp'', ''fixtures'', ''sample.json'']),
         Export Parquet (Abs [''tmp'', ''fixtures'', ''sample.parquet'']),
         Export Excel (Abs [''tmp'', ''fixtures'', ''sample.xlsx'']),
         Mkdir (Abs [''tmp'', ''fixtures'']),
         Export CSV (Abs [''tmp'', ''fixtures'', ''sample2.csv'']),
         Export JSON (Abs [''tmp'', ''fixtures'', ''sample2.json'']),
         Export Parquet (Abs [''tmp'', ''fixtures'', ''sample2.parquet'']),
         Export Excel (Abs [''tmp'', ''fixtures'', ''sample2.xlsx''])])
   \<and> (\<exists>s' v'. create_test_data np_example enc_ok 0 world_example
                   = (Inr (Rel [''test_data'', ''test_reviews.parquet'']), s', v') \<and>
         trace v' = [Mkdir (Rel [''test_data'']),
                     Export Parquet (Rel [''test_data'', ''test_reviews.parquet''])])"
proof
  have "exit_status (main enc_example args_example world_example) = 0"
  proof -
    have "\<exists>w0. Path_mkdir (base_dir args_example) True True world_example = (None, w0)"
      using Path_mkdir_parents[OF world_example_tree(1,2) world_example_tree(3)] by blast
    then have "fst (Path_mkdir (base_dir args_example) True True world_example) = None" by auto
    moreover have "\<exists>df1. generate_data (clock world_example) ''sample'' (sample_rows args_example)
                      = Inr df1"
      using generate_data_ok[of 5 739924 "''sample''"]
      by (simp add: args_example_def world_example_def date_max_def)
    moreover have "\<exists>df2. generate_data (clock world_example) ''sample2'' (sample2_rows args_example)
                      = Inr df2"
      using generate_data_ok[of 8 739924 "''sample2''"]
      by (simp add: args_example_def world_example_def date_max_def)
    ultimately show ?thesis unfolding main_exit_iff by blast
  qed
  then obtain v where m: "main enc_example args_example world_example = (None, v)"
    by (cases "main enc_example args_example world_example")
       (auto simp: exit_status_def split: option.splits)
  from output_files[of enc_example args_example world_example v np_example 0 "Rel []" 0
      world_example, THEN conjunct1] m
  show "\<exists>v. main enc_example args_example world_example = (None, v) \<and>
      trace v =
        [Mkdir (Abs [''tmp'', ''fixtures'']),
         Export CSV (Abs [''tmp'', ''fixtures'', ''sample.csv'']),
         Export JSON (Abs [''tmp'', ''fixtures'', ''sample.json'']),
         Export Parquet (Abs [''tmp'', ''fixtures'', ''sample.parquet'']),
         Export Excel (Abs [''tmp'', ''fixtures'', ''sample.xlsx'']),
         Mkdir (Abs [''tmp'', ''fixtures'']),
         Export CSV (Abs [''tmp'', ''fixtures'', ''sample2.csv'']),
         Export JSON (Abs [''tmp'', ''fixtures'', ''sample2.json'']),
         Export Parquet (Abs [''tmp'', ''fixtures'', ''sample2.parquet'']),
         Export Excel (Abs [''tmp'', ''fixtures'', ''sample2.xlsx''])]"
    by (simp add: args_example_def world_example_def)
next
  let ?w1 = "world_example\<lparr>trace := [Mkdir (Rel [''test_data''])],
                files := (files world_example)([''work'', ''test_data''] \<mapsto> Dir)\<rparr>"
  let ?df = "\<lparr>df_index = n_rows, df_cols = fst (test_columns np_example 0)\<rparr>"
  let ?out = "Rel [''test_data'', ''test_reviews.parquet'']"
  let ?w2 = "?w1\<lparr>trace := trace ?w1 @ [Export Parquet ?out],
                 files := (files ?w1)([''work'', ''test_data'', ''test_reviews.parquet'']
                                       \<mapsto> File ''data'')\<rparr>"
  have m: "Path_mkdir (Rel [''test_data'']) False True world_example = (None, ?w1)"
    by (simp add: Path_mkdir_def mkdir.simps os_mkdir_def node_at_def world_example_def)
  have t: "to_file enc_ok Parquet ?df ?out ?w1 = (None, ?w2)"
    by (simp add: to_file_def enc_ok_def open_write_def node_at_def world_example_def)
  from create_test_data_ok[OF np_example_contract m t] obtain w' where
    c: "create_test_data np_example enc_ok 0 world_example
          = (Inr ?out, snd (test_columns np_example 0), w')"
    by blast
  from output_files[of enc_ok args_example world_example w' np_example 0 ?out
      "snd (test_columns np_example 0)" w', THEN conjunct2] c
  show "\<exists>s' v'. create_test_data np_example enc_ok 0 world_example
                   = (Inr (Rel [''test_data'', ''test_reviews.parquet'']), s', v') \<and>
         trace v' = [Mkdir (Rel [''test_data'']),
                     Export Parquet (Rel [''test_data'', ''test_reviews.parquet''])]"
    by (auto simp: world_example_def)
qed

end
